theory Spec2Isabelle
  imports Complex_Main
begin

section \<open>JavaScript numbers\<close>

text \<open>
  The statistics module (\<^verbatim>\<open>src/lib/stats.ts\<close>) computes with JavaScript numbers, which are
  IEEE 754 binary64 values. A finite value is kept as a signed significand and an
  exponent, \<open>Fin m e\<close> standing for \<open>m * 2 ^ e\<close>, in the format's own normal form:
  \<open>2 ^ 52 \<le> \<bar>m\<bar> < 2 ^ 53\<close> with \<open>- 1074 \<le> e \<le> 971\<close> for a normal number,
  \<open>\<bar>m\<bar> < 2 ^ 52\<close> with \<open>e = - 1074\<close> for a subnormal one, and \<open>Fin 0 0\<close> for zero.
  The two zeros of the format are one value here: they are equal under \<^verbatim>\<open>===\<close>, and the
  module never divides by a zero, which is the only place where their sign shows.
\<close>

datatype number = Fin int int | PInf | NInf | NaN

fun bit_length :: "nat \<Rightarrow> nat" where
  "bit_length n = (if n = 0 then 0 else Suc (bit_length (n div 2)))"

declare bit_length.simps [simp del]

text \<open>The integer nearest to \<open>num / den\<close> (for \<open>0 < den\<close>), a tie going to the even one.\<close>

definition round_half_even :: "int \<Rightarrow> int \<Rightarrow> int" where
  "round_half_even num den =
     (let f = num div den; r = num mod den
      in if 2 * r < den then f
         else if den < 2 * r then f + 1
         else if even f then f else f + 1)"

text \<open>
  The binary exponent of \<open>a / D\<close> for positive \<open>a\<close> and \<open>D\<close>: the \<open>k\<close> with
  \<open>2 ^ k \<le> a / D < 2 ^ (k + 1)\<close>. The lengths of the two integers give it up to one.
\<close>

definition binary_exponent :: "int \<Rightarrow> int \<Rightarrow> int" where
  "binary_exponent a D =
     (let k0 = int (bit_length (nat a)) - int (bit_length (nat D))
      in if (if 0 \<le> k0 then D * 2 ^ nat k0 \<le> a else D \<le> a * 2 ^ nat (- k0))
         then k0 else k0 - 1)"

text \<open>\<open>a / D * 2 ^ t\<close> rounded to an integer.\<close>

definition round_scaled :: "int \<Rightarrow> int \<Rightarrow> int \<Rightarrow> int" where
  "round_scaled a D t =
     (if 0 \<le> t then round_half_even (a * 2 ^ nat t) D
      else round_half_even a (D * 2 ^ nat (- t)))"

text \<open>
  The number \<open>\<plusminus> m * 2 ^ q\<close> for a rounded significand \<open>0 \<le> m \<le> 2 ^ 53\<close>: a
  significand that rounding has carried to \<open>2 ^ 53\<close> moves to the next exponent, a
  result of \<open>2 ^ 1024\<close> or more is an infinity, and one that has rounded to nothing
  is zero.
\<close>

definition pack :: "bool \<Rightarrow> int \<Rightarrow> int \<Rightarrow> number" where
  "pack positive m q =
     (let m' = (if m = 2 ^ 53 then 2 ^ 52 else m);
          q' = (if m = 2 ^ 53 then q + 1 else q)
      in if m' = 0 then Fin 0 0
         else if 971 < q' then (if positive then PInf else NInf)
         else Fin (if positive then m' else - m') q')"

text \<open>
  \<open>fl_ratio N D s\<close> is the binary64 value nearest to \<open>N / D * 2 ^ s\<close> (for \<open>0 < D\<close>),
  rounding to nearest, ties to even: \<open>q\<close> is the exponent of the last place of the
  result, \<open>52\<close> below the binary exponent and never below that of the subnormal
  numbers, and the significand is the quotient rounded at that place.
\<close>

definition fl_ratio :: "int \<Rightarrow> int \<Rightarrow> int \<Rightarrow> number" where
  "fl_ratio N D s =
     (if N = 0 then Fin 0 0
      else
        (let a = \<bar>N\<bar>;
             q = max (binary_exponent a D + s - 52) (- 1074)
         in pack (0 < N) (round_scaled a D (s - q)) q))"

text \<open>A decimal literal \<open>p / q\<close> of the source, and an integer as a number.\<close>

definition lit :: "int \<Rightarrow> int \<Rightarrow> number" where
  "lit p q = fl_ratio p q 0"

definition num_of_int :: "int \<Rightarrow> number" where
  "num_of_int n = fl_ratio n 1 0"

text \<open>The operators \<^verbatim>\<open>+\<close>, \<^verbatim>\<open>*\<close>, \<^verbatim>\<open>/\<close> and \<^verbatim>\<open>>\<close> on numbers.\<close>

fun num_add :: "number \<Rightarrow> number \<Rightarrow> number" where
  "num_add (Fin m1 e1) (Fin m2 e2) =
     (let e = min e1 e2
      in fl_ratio (m1 * 2 ^ nat (e1 - e) + m2 * 2 ^ nat (e2 - e)) 1 e)"
| "num_add NaN _ = NaN"
| "num_add _ NaN = NaN"
| "num_add PInf NInf = NaN"
| "num_add NInf PInf = NaN"
| "num_add PInf _ = PInf"
| "num_add _ PInf = PInf"
| "num_add NInf _ = NInf"
| "num_add _ NInf = NInf"

text \<open>The sign of a number that is not NaN: \<open>- 1\<close>, \<open>0\<close> or \<open>1\<close>.\<close>

fun num_sign :: "number \<Rightarrow> int" where
  "num_sign (Fin m e) = sgn m"
| "num_sign PInf = 1"
| "num_sign NInf = - 1"
| "num_sign NaN = 0"

definition signed_inf :: "int \<Rightarrow> number" where
  "signed_inf s = (if s = 0 then NaN else if 0 < s then PInf else NInf)"

fun num_mul :: "number \<Rightarrow> number \<Rightarrow> number" where
  "num_mul (Fin m1 e1) (Fin m2 e2) = fl_ratio (m1 * m2) 1 (e1 + e2)"
| "num_mul NaN _ = NaN"
| "num_mul _ NaN = NaN"
| "num_mul x y = signed_inf (num_sign x * num_sign y)"

text \<open>
  Division. A finite number over a zero is an infinity of the dividend's sign (the zero
  taken as positive) and \<open>0 / 0\<close> is NaN; the module's divisors are the constants
  \<open>3\<close>, \<open>6\<close>, \<open>12\<close> and the length of a list that is not empty.
\<close>

fun num_div :: "number \<Rightarrow> number \<Rightarrow> number" where
  "num_div (Fin m1 e1) (Fin m2 e2) =
     (if m2 = 0 then signed_inf (sgn m1)
      else fl_ratio (sgn m2 * m1) \<bar>m2\<bar> (e1 - e2))"
| "num_div NaN _ = NaN"
| "num_div _ NaN = NaN"
| "num_div (Fin m1 e1) _ = Fin 0 0"
| "num_div PInf (Fin m2 e2) = (if m2 < 0 then NInf else PInf)"
| "num_div NInf (Fin m2 e2) = (if m2 < 0 then PInf else NInf)"
| "num_div _ _ = NaN"

text \<open>The value of a finite number, and the comparison \<^verbatim>\<open>a > b\<close>, false on NaN.\<close>

definition pow2 :: "int \<Rightarrow> rat" where
  "pow2 k = (if 0 \<le> k then 2 ^ nat k else 1 / 2 ^ nat (- k))"

definition val :: "int \<Rightarrow> int \<Rightarrow> rat" where
  "val m e = of_int m * pow2 e"

fun num_gt :: "number \<Rightarrow> number \<Rightarrow> bool" where
  "num_gt (Fin m1 e1) (Fin m2 e2) = (val m2 e2 < val m1 e1)"
| "num_gt NaN _ = False"
| "num_gt _ NaN = False"
| "num_gt PInf PInf = False"
| "num_gt PInf _ = True"
| "num_gt _ PInf = False"
| "num_gt NInf _ = False"
| "num_gt _ NInf = True"

text \<open>\<^verbatim>\<open>a >= b\<close>, again false on NaN.\<close>

fun num_ge :: "number \<Rightarrow> number \<Rightarrow> bool" where
  "num_ge (Fin m1 e1) (Fin m2 e2) = (val m2 e2 \<le> val m1 e1)"
| "num_ge NaN _ = False"
| "num_ge _ NaN = False"
| "num_ge PInf _ = True"
| "num_ge _ NInf = True"
| "num_ge _ _ = False"

section \<open>The data model\<close>

text \<open>
  A \<^verbatim>\<open>Date\<close> object holds a time value, the milliseconds since the epoch, or NaN when
  the date is invalid: \<open>Some t\<close> and \<open>None\<close>.
\<close>

type_synonym date = "int option"

record charge =
  amount :: number
  dayOfMonth :: number
  startDate :: date

text \<open>
  A \<^verbatim>\<open>Subscription\<close>. The duration is the string the switch statements of the module
  compare, so that their default branches have values to take; \<open>charges\<close> is optional.
\<close>

record subscription =
  title :: string
  price :: number
  currency :: string
  recurringDuration :: string
  startDate :: date
  charges :: "charge list option"

section \<open>Cost normalisation\<close>

definition getTotalPrice :: "subscription \<Rightarrow> number" where
  "getTotalPrice sub =
     (case charges sub of
        Some cs \<Rightarrow>
          if 0 < length cs
          then foldl (\<lambda>sum c. num_add sum (amount c)) (num_of_int 0) cs
          else price sub
      | None \<Rightarrow> price sub)"

definition calculateMonthlyCost :: "number \<Rightarrow> string \<Rightarrow> number" where
  "calculateMonthlyCost p duration =
     (if duration = ''weekly'' then num_mul p (lit 433 100)
      else if duration = ''bi-weekly'' then num_mul p (lit 217 100)
      else if duration = ''monthly'' then p
      else if duration = ''quarterly'' then num_div p (num_of_int 3)
      else if duration = ''semi-annually'' then num_div p (num_of_int 6)
      else if duration = ''yearly'' then num_div p (num_of_int 12)
      else p)"

definition getDaysInDuration :: "string \<Rightarrow> int" where
  "getDaysInDuration duration =
     (if duration = ''weekly'' then 7
      else if duration = ''bi-weekly'' then 14
      else if duration = ''monthly'' then 30
      else if duration = ''quarterly'' then 90
      else if duration = ''semi-annually'' then 180
      else if duration = ''yearly'' then 365
      else 30)"

section \<open>Dates\<close>

text \<open>
  The \<^verbatim>\<open>Date\<close> operations the module calls, after the abstract operations of the
  ECMAScript specification (Day, TimeWithinDay, DayFromYear, YearFromTime, MonthFromTime,
  DateFromTime, MakeDay, MakeDate, TimeClip). The numbers of this part of the code are
  integers: times of magnitude at most \<open>8.64 * 10 ^ 15\<close>, day counts, month indices.
  They are kept as \<open>int\<close>, with \<open>None\<close> for NaN, and \<^verbatim>\<open>Math.floor(a / b)\<close> is the
  integer quotient. Sums, differences and products of integers below \<open>2 ^ 53\<close> are
  exact in binary64, and the quotient of a time difference below \<open>2 ^ 53\<close> by the
  milliseconds of a day is rounded by less than \<open>2 ^ - 27\<close>, while a quotient that
  is not whole stays \<open>1 / 86400000\<close> or more below the next integer, so its floor is
  not changed. The difference \<open>now - start\<close> is below \<open>2 ^ 53\<close> for every valid
  start date as long as the clock is below \<open>3.67 * 10 ^ 14\<close>, the year 13600;
  beyond that the code's day count can be one more than the integer quotient.
\<close>

definition msPerDay :: int where
  "msPerDay = 86400000"

definition Day :: "int \<Rightarrow> int" where
  "Day t = t div msPerDay"

definition TimeWithinDay :: "int \<Rightarrow> int" where
  "TimeWithinDay t = t mod msPerDay"

definition DaysInYear :: "int \<Rightarrow> int" where
  "DaysInYear y =
     (if y mod 4 \<noteq> 0 then 365
      else if y mod 100 \<noteq> 0 then 366
      else if y mod 400 \<noteq> 0 then 365
      else 366)"

definition DayFromYear :: "int \<Rightarrow> int" where
  "DayFromYear y =
     365 * (y - 1970) + (y - 1969) div 4 - (y - 1901) div 100 + (y - 1601) div 400"

text \<open>
  The year of a time value is the largest \<open>y\<close> whose first day is not after it. It
  is computed from the mean length of a year, \<open>146097 / 400\<close> days, which is off by
  one year at most (lemma \<open>YearFromTime_bounds\<close>).
\<close>

definition YearFromTime :: "int \<Rightarrow> int" where
  "YearFromTime t =
     (let d = Day t; y0 = 1970 + (400 * d) div 146097
      in if d < DayFromYear y0 then y0 - 1
         else if DayFromYear (y0 + 1) \<le> d then y0 + 1
         else y0)"

definition InLeapYear :: "int \<Rightarrow> int" where
  "InLeapYear t = (if DaysInYear (YearFromTime t) = 366 then 1 else 0)"

definition DayWithinYear :: "int \<Rightarrow> int" where
  "DayWithinYear t = Day t - DayFromYear (YearFromTime t)"

definition MonthFromTime :: "int \<Rightarrow> int" where
  "MonthFromTime t =
     (let d = DayWithinYear t; leap = InLeapYear t
      in if d < 31 then 0
         else if d < 59 + leap then 1
         else if d < 90 + leap then 2
         else if d < 120 + leap then 3
         else if d < 151 + leap then 4
         else if d < 181 + leap then 5
         else if d < 212 + leap then 6
         else if d < 243 + leap then 7
         else if d < 273 + leap then 8
         else if d < 304 + leap then 9
         else if d < 334 + leap then 10
         else 11)"

definition DateFromTime :: "int \<Rightarrow> int" where
  "DateFromTime t =
     (let d = DayWithinYear t; leap = InLeapYear t; m = MonthFromTime t
      in if m = 0 then d + 1
         else if m = 1 then d - 30
         else if m = 2 then d - 58 - leap
         else if m = 3 then d - 89 - leap
         else if m = 4 then d - 119 - leap
         else if m = 5 then d - 150 - leap
         else if m = 6 then d - 180 - leap
         else if m = 7 then d - 211 - leap
         else if m = 8 then d - 242 - leap
         else if m = 9 then d - 272 - leap
         else if m = 10 then d - 303 - leap
         else d - 333 - leap)"

text \<open>The days of a year before its month \<open>mn\<close> (\<open>0\<close> is January).\<close>

definition DaysBeforeMonth :: "int \<Rightarrow> int \<Rightarrow> int" where
  "DaysBeforeMonth y mn =
     (let leap = (if DaysInYear y = 366 then 1 else 0)
      in if mn = 0 then 0
         else if mn = 1 then 31
         else if mn = 2 then 59 + leap
         else if mn = 3 then 90 + leap
         else if mn = 4 then 120 + leap
         else if mn = 5 then 151 + leap
         else if mn = 6 then 181 + leap
         else if mn = 7 then 212 + leap
         else if mn = 8 then 243 + leap
         else if mn = 9 then 273 + leap
         else if mn = 10 then 304 + leap
         else 334 + leap)"

text \<open>
  MakeDay: the day number of the first of month \<open>month\<close> of year \<open>year\<close>, the
  month carried into the year when it is outside \<open>0 .. 11\<close>, plus \<open>date - 1\<close>. A day
  too far for a time value makes TimeClip, which every caller applies, answer NaN.
\<close>

definition MakeDay :: "int \<Rightarrow> int \<Rightarrow> int \<Rightarrow> int" where
  "MakeDay year month date =
     (let ym = year + month div 12; mn = month mod 12
      in DayFromYear ym + DaysBeforeMonth ym mn + date - 1)"

definition MakeDate :: "int \<Rightarrow> int \<Rightarrow> int" where
  "MakeDate day time = day * msPerDay + time"

definition TimeClip :: "int \<Rightarrow> date" where
  "TimeClip t = (if 8640000000000000 < \<bar>t\<bar> then None else Some t)"

text \<open>
  The local time zone is the function LocalTZA of the language: \<open>tz t True\<close> is the
  offset of local time from UTC, in milliseconds, at the UTC time \<open>t\<close>, and
  \<open>tz t False\<close> the offset at the local time \<open>t\<close> (where a local time is repeated or
  skipped at a transition, the offset before the transition). Daylight saving time is a
  zone whose offset changes with \<open>t\<close>.
\<close>

type_synonym zone = "int \<Rightarrow> bool \<Rightarrow> int"

definition LocalTime :: "zone \<Rightarrow> int \<Rightarrow> int" where
  "LocalTime tz t = t + tz t True"

definition UTC :: "zone \<Rightarrow> int \<Rightarrow> int" where
  "UTC tz t = t - tz t False"

text \<open>Arithmetic on integers that may be NaN.\<close>

definition n_add :: "int option \<Rightarrow> int option \<Rightarrow> int option" where
  "n_add a b = (case (a, b) of (Some x, Some y) \<Rightarrow> Some (x + y) | _ \<Rightarrow> None)"

definition n_sub :: "int option \<Rightarrow> int option \<Rightarrow> int option" where
  "n_sub a b = (case (a, b) of (Some x, Some y) \<Rightarrow> Some (x - y) | _ \<Rightarrow> None)"

definition n_mul :: "int option \<Rightarrow> int option \<Rightarrow> int option" where
  "n_mul a b = (case (a, b) of (Some x, Some y) \<Rightarrow> Some (x * y) | _ \<Rightarrow> None)"

text \<open>\<^verbatim>\<open>Math.floor(a / b)\<close> for a positive integer \<open>b\<close>.\<close>

definition n_floor_div :: "int option \<Rightarrow> int \<Rightarrow> int option" where
  "n_floor_div a b = (case a of Some x \<Rightarrow> Some (x div b) | None \<Rightarrow> None)"

definition n_to_number :: "int option \<Rightarrow> number" where
  "n_to_number a = (case a of Some x \<Rightarrow> num_of_int x | None \<Rightarrow> NaN)"

text \<open>The methods of \<^verbatim>\<open>Date\<close>; a setter returns the date it leaves in the object.\<close>

definition getTime :: "date \<Rightarrow> int option" where
  "getTime d = d"

definition getDate :: "zone \<Rightarrow> date \<Rightarrow> int option" where
  "getDate tz d = map_option (\<lambda>t. DateFromTime (LocalTime tz t)) d"

definition getMonth :: "zone \<Rightarrow> date \<Rightarrow> int option" where
  "getMonth tz d = map_option (\<lambda>t. MonthFromTime (LocalTime tz t)) d"

definition getFullYear :: "zone \<Rightarrow> date \<Rightarrow> int option" where
  "getFullYear tz d = map_option (\<lambda>t. YearFromTime (LocalTime tz t)) d"

definition setDate :: "zone \<Rightarrow> date \<Rightarrow> int option \<Rightarrow> date" where
  "setDate tz d date =
     (case (d, date) of
        (Some t, Some dt) \<Rightarrow>
          (let lt = LocalTime tz t
           in TimeClip (UTC tz (MakeDate
                (MakeDay (YearFromTime lt) (MonthFromTime lt) dt) (TimeWithinDay lt))))
      | _ \<Rightarrow> None)"

definition setMonth :: "zone \<Rightarrow> date \<Rightarrow> int option \<Rightarrow> date" where
  "setMonth tz d month =
     (case (d, month) of
        (Some t, Some m) \<Rightarrow>
          (let lt = LocalTime tz t
           in TimeClip (UTC tz (MakeDate
                (MakeDay (YearFromTime lt) m (DateFromTime lt)) (TimeWithinDay lt))))
      | _ \<Rightarrow> None)"

text \<open>\<^verbatim>\<open>setFullYear\<close> starts from time \<open>0\<close> when the date is invalid.\<close>

definition setFullYear :: "zone \<Rightarrow> date \<Rightarrow> int option \<Rightarrow> date" where
  "setFullYear tz d year =
     (case year of
        Some y \<Rightarrow>
          (let lt = (case d of Some t \<Rightarrow> LocalTime tz t | None \<Rightarrow> 0)
           in TimeClip (UTC tz (MakeDate
                (MakeDay y (MonthFromTime lt) (DateFromTime lt)) (TimeWithinDay lt))))
      | None \<Rightarrow> None)"

text \<open>
  \<^verbatim>\<open>new Date(year, monthIndex, day)\<close>, at midnight local time; a year from \<open>0\<close> to
  \<open>99\<close> stands for one of the twentieth century.
\<close>

definition newDate :: "zone \<Rightarrow> int option \<Rightarrow> int option \<Rightarrow> int option \<Rightarrow> date" where
  "newDate tz year month day =
     (case (year, month, day) of
        (Some y, Some m, Some dt) \<Rightarrow>
          (let yr = (if 0 \<le> y \<and> y \<le> 99 then 1900 + y else y)
           in TimeClip (UTC tz (MakeDate (MakeDay yr m dt) 0)))
      | _ \<Rightarrow> None)"

text \<open>The comparisons of two dates, false when one of them is invalid.\<close>

definition date_gt :: "date \<Rightarrow> date \<Rightarrow> bool" where
  "date_gt a b = (case (a, b) of (Some x, Some y) \<Rightarrow> y < x | _ \<Rightarrow> False)"

definition date_le :: "date \<Rightarrow> date \<Rightarrow> bool" where
  "date_le a b = (case (a, b) of (Some x, Some y) \<Rightarrow> x \<le> y | _ \<Rightarrow> False)"

definition date_ge :: "date \<Rightarrow> date \<Rightarrow> bool" where
  "date_ge a b = (case (a, b) of (Some x, Some y) \<Rightarrow> y \<le> x | _ \<Rightarrow> False)"

section \<open>Elapsed cost\<close>

text \<open>
  The clock is a parameter: \<open>now\<close> is the time value of \<^verbatim>\<open>new Date()\<close>, always a
  valid date.
\<close>

definition calculateTotalSpent :: "int \<Rightarrow> subscription \<Rightarrow> number" where
  "calculateTotalSpent now sub =
     (let start = startDate sub
      in if date_gt start (Some now) then num_of_int 0
         else
           (let daysSinceStart = n_floor_div (n_sub (Some now) (getTime start)) msPerDay;
                daysInDuration = getDaysInDuration (recurringDuration sub);
                billingCycles = n_add (n_floor_div daysSinceStart daysInDuration) (Some 1);
                totalPrice = getTotalPrice sub
            in num_mul totalPrice (n_to_number billingCycles)))"

section \<open>Renewal date projection\<close>

definition calculateNextRenewalDate :: "zone \<Rightarrow> int \<Rightarrow> subscription \<Rightarrow> date" where
  "calculateNextRenewalDate tz now sub =
     (let start = startDate sub; duration = recurringDuration sub
      in if date_gt start (Some now) then start
         else
           (let daysSinceStart = n_floor_div (n_sub (Some now) (getTime start)) msPerDay;
                daysInDuration = getDaysInDuration duration;
                cyclesPassed = n_floor_div daysSinceStart daysInDuration;
                periods = n_add cyclesPassed (Some 1);
                nextRenewal =
                  (if duration = ''weekly''
                   then setDate tz start (n_add (getDate tz start) (n_mul periods (Some 7)))
                   else if duration = ''bi-weekly''
                   then setDate tz start (n_add (getDate tz start) (n_mul periods (Some 14)))
                   else if duration = ''monthly''
                   then setMonth tz start (n_add (getMonth tz start) periods)
                   else if duration = ''quarterly''
                   then setMonth tz start (n_add (getMonth tz start) (n_mul periods (Some 3)))
                   else if duration = ''semi-annually''
                   then setMonth tz start (n_add (getMonth tz start) (n_mul periods (Some 6)))
                   else if duration = ''yearly''
                   then setFullYear tz start (n_add (getFullYear tz start) periods)
                   else start)
            in if date_le nextRenewal (Some now)
               then
                 (if duration = ''weekly''
                  then setDate tz nextRenewal (n_add (getDate tz nextRenewal) (Some 7))
                  else if duration = ''bi-weekly''
                  then setDate tz nextRenewal (n_add (getDate tz nextRenewal) (Some 14))
                  else if duration = ''monthly''
                  then setMonth tz nextRenewal (n_add (getMonth tz nextRenewal) (Some 1))
                  else if duration = ''quarterly''
                  then setMonth tz nextRenewal (n_add (getMonth tz nextRenewal) (Some 3))
                  else if duration = ''semi-annually''
                  then setMonth tz nextRenewal (n_add (getMonth tz nextRenewal) (Some 6))
                  else if duration = ''yearly''
                  then setFullYear tz nextRenewal (n_add (getFullYear tz nextRenewal) (Some 1))
                  else nextRenewal)
               else nextRenewal))"

section \<open>Aggregation and ranking\<close>

text \<open>The monthly-normalised cost the aggregates compare and add.\<close>

definition monthlyOf :: "subscription \<Rightarrow> number" where
  "monthlyOf sub = calculateMonthlyCost (getTotalPrice sub) (recurringDuration sub)"

text \<open>\<^verbatim>\<open>reduce\<close> without an initial value starts from the first element.\<close>

definition getMostCostlySubscription :: "subscription list \<Rightarrow> subscription option" where
  "getMostCostlySubscription subscriptions =
     (case subscriptions of
        [] \<Rightarrow> None
      | first # rest \<Rightarrow>
          Some (foldl (\<lambda>mostCostly current.
                  (let mostCostlyTotal = getTotalPrice mostCostly;
                       currentTotal = getTotalPrice current;
                       mostCostlyMonthly =
                         calculateMonthlyCost mostCostlyTotal (recurringDuration mostCostly);
                       currentMonthly =
                         calculateMonthlyCost currentTotal (recurringDuration current)
                   in if num_gt currentMonthly mostCostlyMonthly then current else mostCostly))
                first rest))"

definition calculateAverageMonthlyCost :: "subscription list \<Rightarrow> number" where
  "calculateAverageMonthlyCost subscriptions =
     (if length subscriptions = 0 then num_of_int 0
      else
        (let totalMonthly =
               foldl (\<lambda>sum sub.
                   (let totalPrice = getTotalPrice sub
                    in num_add sum (calculateMonthlyCost totalPrice (recurringDuration sub))))
                 (num_of_int 0) subscriptions
         in num_div totalMonthly (num_of_int (int (length subscriptions)))))"

section \<open>Grouping\<close>

text \<open>
  The accumulator of the two grouping functions is the object \<^verbatim>\<open>{}\<close>, whose own
  properties are a map from keys to arrays. Reading \<^verbatim>\<open>acc[k]\<close> for a key that is not
  an own property finds what \<^verbatim>\<open>Object.prototype\<close> has under that name: for the names
  below a function or an object, which is truthy, so no array is stored, and which has no
  \<^verbatim>\<open>push\<close>, so the call raises a TypeError.
\<close>

definition object_prototype_keys :: "string list" where
  "object_prototype_keys =
     [''constructor'', ''__defineGetter__'', ''__defineSetter__'', ''hasOwnProperty'',
      ''__lookupGetter__'', ''__lookupSetter__'', ''isPrototypeOf'',
      ''propertyIsEnumerable'', ''toString'', ''valueOf'', ''__proto__'',
      ''toLocaleString'']"

datatype error = TypeError

type_synonym groups = "string \<rightharpoonup> subscription list"

text \<open>The body of the reducer, for the key \<open>k\<close> of \<open>sub\<close>.\<close>

definition group_push :: "string \<Rightarrow> subscription \<Rightarrow> groups \<Rightarrow> error + groups" where
  "group_push k sub acc =
     (case acc k of
        Some arr \<Rightarrow> Inr (acc(k \<mapsto> arr @ [sub]))
      | None \<Rightarrow>
          if k \<in> set object_prototype_keys then Inl TypeError
          else Inr (acc(k \<mapsto> [sub])))"

fun reduce_groups ::
  "(subscription \<Rightarrow> string) \<Rightarrow> subscription list \<Rightarrow> groups \<Rightarrow> error + groups" where
  "reduce_groups key [] acc = Inr acc"
| "reduce_groups key (sub # subs) acc =
     (case group_push (key sub) sub acc of
        Inl e \<Rightarrow> Inl e
      | Inr acc' \<Rightarrow> reduce_groups key subs acc')"

definition groupByCurrency :: "subscription list \<Rightarrow> error + groups" where
  "groupByCurrency subscriptions = reduce_groups currency subscriptions Map.empty"

definition groupByDuration :: "subscription list \<Rightarrow> error + groups" where
  "groupByDuration subscriptions = reduce_groups recurringDuration subscriptions Map.empty"

section \<open>Renewals\<close>

text \<open>
  \<^verbatim>\<open>Array.prototype.sort\<close> with a comparison function: a NaN from the function counts
  as \<open>0\<close>. The sort is stable; it is the insertion sort here, which is the order of every
  stable sort when the function is a consistent ordering (it is one on valid dates).
\<close>

definition sort_compare :: "('a \<Rightarrow> 'a \<Rightarrow> int option) \<Rightarrow> 'a \<Rightarrow> 'a \<Rightarrow> int" where
  "sort_compare comparefn x y = (case comparefn x y of Some v \<Rightarrow> v | None \<Rightarrow> 0)"

fun insert_by :: "('a \<Rightarrow> 'a \<Rightarrow> int option) \<Rightarrow> 'a \<Rightarrow> 'a list \<Rightarrow> 'a list" where
  "insert_by comparefn x [] = [x]"
| "insert_by comparefn x (y # ys) =
     (if sort_compare comparefn x y \<le> 0 then x # y # ys
      else y # insert_by comparefn x ys)"

definition sort_by :: "('a \<Rightarrow> 'a \<Rightarrow> int option) \<Rightarrow> 'a list \<Rightarrow> 'a list" where
  "sort_by comparefn xs = foldr (insert_by comparefn) xs []"

definition byRenewal :: "subscription \<times> date \<Rightarrow> subscription \<times> date \<Rightarrow> int option" where
  "byRenewal a b = n_sub (getTime (snd a)) (getTime (snd b))"

definition getRenewalsThisMonth :: "zone \<Rightarrow> int \<Rightarrow> subscription list \<Rightarrow> subscription list" where
  "getRenewalsThisMonth tz now subscriptions =
     (let startOfMonth =
            newDate tz (getFullYear tz (Some now)) (getMonth tz (Some now)) (Some 1);
          endOfMonth =
            newDate tz (getFullYear tz (Some now))
              (n_add (getMonth tz (Some now)) (Some 1)) (Some 0)
      in map fst
           (sort_by byRenewal
              (filter (\<lambda>(sub, nextRenewal).
                   date_ge nextRenewal startOfMonth \<and> date_le nextRenewal endOfMonth)
                 (map (\<lambda>sub. (sub, calculateNextRenewalDate tz now sub)) subscriptions))))"

text \<open>\<^verbatim>\<open>renewals[0]\<close> is read from a list that is not empty.\<close>

definition getNextRenewal ::
  "zone \<Rightarrow> int \<Rightarrow> subscription list \<Rightarrow> (subscription \<times> date) option" where
  "getNextRenewal tz now subscriptions =
     (if length subscriptions = 0 then None
      else
        (let renewals =
               sort_by byRenewal
                 (map (\<lambda>sub. (sub, calculateNextRenewalDate tz now sub)) subscriptions)
         in case renewals of r # _ \<Rightarrow> Some r | [] \<Rightarrow> None))"

section \<open>The projection as the specification words it\<close>

text \<open>
  Section 4.3 of the specification: the six cadences, the fixed table of days, the
  calendar step of each cadence, the projection of \<open>cyclesPassed + 1\<close> periods from the
  start and one correction. Every step is taken on the local calendar: a step of days
  moves the local time by whole days, a step of months or years keeps the local day of
  the month and time of day and carries a day beyond the end of the month into the next
  one.
\<close>

datatype cadence = Weekly | BiWeekly | Monthly | Quarterly | SemiAnnually | Yearly

definition cadence_of :: "string \<Rightarrow> cadence option" where
  "cadence_of d =
     (if d = ''weekly'' then Some Weekly
      else if d = ''bi-weekly'' then Some BiWeekly
      else if d = ''monthly'' then Some Monthly
      else if d = ''quarterly'' then Some Quarterly
      else if d = ''semi-annually'' then Some SemiAnnually
      else if d = ''yearly'' then Some Yearly
      else None)"

fun cadence_days :: "cadence \<Rightarrow> int" where
  "cadence_days Weekly = 7"
| "cadence_days BiWeekly = 14"
| "cadence_days Monthly = 30"
| "cadence_days Quarterly = 90"
| "cadence_days SemiAnnually = 180"
| "cadence_days Yearly = 365"

definition add_days :: "zone \<Rightarrow> int \<Rightarrow> int \<Rightarrow> date" where
  "add_days tz n t = TimeClip (UTC tz (LocalTime tz t + n * msPerDay))"

definition add_months :: "zone \<Rightarrow> int \<Rightarrow> int \<Rightarrow> date" where
  "add_months tz n t =
     (let lt = LocalTime tz t
      in TimeClip (UTC tz (MakeDate
           (MakeDay (YearFromTime lt) (MonthFromTime lt + n) (DateFromTime lt))
           (TimeWithinDay lt))))"

definition add_years :: "zone \<Rightarrow> int \<Rightarrow> int \<Rightarrow> date" where
  "add_years tz n t =
     (let lt = LocalTime tz t
      in TimeClip (UTC tz (MakeDate
           (MakeDay (YearFromTime lt + n) (MonthFromTime lt) (DateFromTime lt))
           (TimeWithinDay lt))))"

fun advance :: "zone \<Rightarrow> cadence \<Rightarrow> int \<Rightarrow> int \<Rightarrow> date" where
  "advance tz Weekly k t = add_days tz (7 * k) t"
| "advance tz BiWeekly k t = add_days tz (14 * k) t"
| "advance tz Monthly k t = add_months tz k t"
| "advance tz Quarterly k t = add_months tz (3 * k) t"
| "advance tz SemiAnnually k t = add_months tz (6 * k) t"
| "advance tz Yearly k t = add_years tz k t"

definition projectRenewal :: "zone \<Rightarrow> int \<Rightarrow> cadence \<Rightarrow> int \<Rightarrow> date" where
  "projectRenewal tz now c start =
     (if now < start then Some start
      else
        (let daysSinceStart = (now - start) div msPerDay;
             cyclesPassed = daysSinceStart div cadence_days c
         in case advance tz c (cyclesPassed + 1) start of
              Some projected \<Rightarrow>
                if projected \<le> now then advance tz c 1 projected else Some projected
            | None \<Rightarrow> None))"

section \<open>Auxiliary notions and example data\<close>

text \<open>The callback of the reduction in \<^verbatim>\<open>getMostCostlySubscription\<close>.\<close>

definition pick :: "subscription \<Rightarrow> subscription \<Rightarrow> subscription" where
  "pick mostCostly current =
     (if num_gt (monthlyOf current) (monthlyOf mostCostly) then current else mostCostly)"

text \<open>
  A finite number in the normal range of the format, where the significand has all
  its \<open>53\<close> bits, and the value of a finite number.
\<close>

fun normal :: "number \<Rightarrow> bool" where
  "normal (Fin m e) = (2 ^ 52 \<le> \<bar>m\<bar>)"
| "normal _ = False"

fun num_val :: "number \<Rightarrow> rat" where
  "num_val (Fin m e) = val m e"
| "num_val _ = 0"

text \<open>Subscriptions and charges of whole amounts, for the examples.\<close>

definition example_charge :: "int \<Rightarrow> charge" where
  "example_charge a =
     \<lparr>amount = num_of_int a, dayOfMonth = num_of_int 1, charge.startDate = Some 0\<rparr>"

definition example_sub ::
  "int \<Rightarrow> string \<Rightarrow> string \<Rightarrow> int \<Rightarrow> charge list option \<Rightarrow> subscription" where
  "example_sub p cur d start cs =
     \<lparr>title = ''plan'', price = num_of_int p, currency = cur, recurringDuration = d,
      startDate = Some start, charges = cs\<rparr>"

definition example_subs :: "subscription list" where
  "example_subs =
     [example_sub 12 ''USD'' ''monthly'' 0 None,
      example_sub 15 ''USD'' ''monthly'' 1 None,
      example_sub 3 ''USD'' ''weekly'' 2 None,
      example_sub 15 ''USD'' ''monthly'' 3 None]"

text \<open>A subscription whose price is NaN.\<close>

definition example_nan :: subscription where
  "example_nan =
     \<lparr>title = ''plan'', price = NaN, currency = ''USD'', recurringDuration = ''monthly'',
      startDate = Some 0, charges = None\<rparr>"

text \<open>
  Two zones for the examples: UTC, and a zone that is four hours behind UTC until
  1 November 2026 at 06:00 UTC and five hours behind from then on, as the east coast of
  North America is when its daylight saving time ends, at 02:00 local time. The local
  times from 01:00 to 02:00 of that night come twice; the offset of the first is taken.
\<close>

definition utc :: zone where
  "utc t isUTC = 0"

definition eastern :: zone where
  "eastern t isUTC =
     (if isUTC then (if t < 1793512800000 then - 14400000 else - 18000000)
      else (if t < 1793498400000 then - 14400000 else - 18000000))"

text \<open>
  The two passes of the projection, for a step function \<open>step k t\<close> that moves the time
  \<open>t\<close> by \<open>k\<close> periods.
\<close>

definition two_pass :: "(int \<Rightarrow> int \<Rightarrow> date) \<Rightarrow> int \<Rightarrow> int \<Rightarrow> int \<Rightarrow> date" where
  "two_pass step now start k =
     (case step k start of
        Some projected \<Rightarrow> if projected \<le> now then step 1 projected else Some projected
      | None \<Rightarrow> None)"

text \<open>
  How far the calendar can differ from the table of days: \<open>k\<close> periods of a cadence
  are at least the table's days less \<open>cadence_short\<close>, and at most the table's days
  plus \<open>12\<close> and half of \<open>cadence_long\<close> a period.
\<close>

fun cadence_short :: "cadence \<Rightarrow> int" where
  "cadence_short Weekly = 0"
| "cadence_short BiWeekly = 0"
| "cadence_short Monthly = 6"
| "cadence_short Quarterly = 6"
| "cadence_short SemiAnnually = 6"
| "cadence_short Yearly = 1"

fun cadence_long :: "cadence \<Rightarrow> int" where
  "cadence_long Weekly = 0"
| "cadence_long BiWeekly = 0"
| "cadence_long Monthly = 1"
| "cadence_long Quarterly = 3"
| "cadence_long SemiAnnually = 6"
| "cadence_long Yearly = 2"

text \<open>
  The mapping a grouping builds from the accumulator \<open>acc\<close>: each key keeps its array,
  extended by the subscriptions of that key in their order.
\<close>

definition grouped :: "(subscription \<Rightarrow> string) \<Rightarrow> subscription list \<Rightarrow> groups \<Rightarrow> groups" where
  "grouped key subs acc k =
     (case acc k of
        Some arr \<Rightarrow> Some (arr @ filter (\<lambda>s. key s = k) subs)
      | None \<Rightarrow> if k \<in> key ` set subs then Some (filter (\<lambda>s. key s = k) subs) else None)"

section \<open>Evaluating numbers\<close>

lemma bit_length_0 [simp]: "bit_length 0 = 0"
  by (simp add: bit_length.simps)

lemma bit_length_One [simp]: "bit_length 1 = 1"
  by (simp add: bit_length.simps)

lemma bit_length_Bit0 [simp]:
  "bit_length (numeral (Num.Bit0 n)) = Suc (bit_length (numeral n))"
  by (subst bit_length.simps) simp

lemma bit_length_Bit1 [simp]:
  "bit_length (numeral (Num.Bit1 n)) = Suc (bit_length (numeral n))"
  by (subst bit_length.simps) simp

lemmas fl_eval = fl_ratio_def binary_exponent_def round_scaled_def pack_def
  round_half_even_def Let_def

lemma num_of_int_0: "num_of_int 0 = Fin 0 0"
  by (simp add: num_of_int_def fl_ratio_def)

lemma num_of_int_1: "num_of_int 1 = Fin 4503599627370496 (- 52)"
  by (simp add: num_of_int_def fl_eval)

lemma num_of_int_2: "num_of_int 2 = Fin 4503599627370496 (- 51)"
  by (simp add: num_of_int_def fl_eval)

lemma num_of_int_3: "num_of_int 3 = Fin 6755399441055744 (- 51)"
  by (simp add: num_of_int_def fl_eval)

lemma num_of_int_5: "num_of_int 5 = Fin 5629499534213120 (- 50)"
  by (simp add: num_of_int_def fl_eval)

lemma num_of_int_6: "num_of_int 6 = Fin 6755399441055744 (- 50)"
  by (simp add: num_of_int_def fl_eval)

lemma num_of_int_7: "num_of_int 7 = Fin 7881299347898368 (- 50)"
  by (simp add: num_of_int_def fl_eval)

lemma num_of_int_9: "num_of_int 9 = Fin 5066549580791808 (- 49)"
  by (simp add: num_of_int_def fl_eval)

lemma num_of_int_12: "num_of_int 12 = Fin 6755399441055744 (- 49)"
  by (simp add: num_of_int_def fl_eval)

lemma num_of_int_15: "num_of_int 15 = Fin 8444249301319680 (- 49)"
  by (simp add: num_of_int_def fl_eval)

lemma num_of_int_24: "num_of_int 24 = Fin 6755399441055744 (- 48)"
  by (simp add: num_of_int_def fl_eval)

lemma num_of_int_100: "num_of_int 100 = Fin 7036874417766400 (- 46)"
  by (simp add: num_of_int_def fl_eval)

text \<open>The literals \<^verbatim>\<open>4.33\<close> and \<^verbatim>\<open>2.17\<close> are the nearest binary64 values.\<close>

lemma lit_433: "lit 433 100 = Fin 4875146596628562 (- 50)"
  by (simp add: lit_def fl_eval)

lemma lit_217: "lit 217 100 = Fin 4886405595696988 (- 51)"
  by (simp add: lit_def fl_eval)

lemma mul_12_2: "num_mul (num_of_int 12) (num_of_int 2) = num_of_int 24"
  by (simp add: num_of_int_12 num_of_int_2 num_of_int_24) (simp add: fl_eval)

lemma mul_3_5: "num_mul (num_of_int 3) (num_of_int 5) = num_of_int 15"
  by (simp add: num_of_int_3 num_of_int_5 num_of_int_15) (simp add: fl_eval)

lemma add_5_7: "num_add (num_add (num_of_int 0) (num_of_int 5)) (num_of_int 7) = num_of_int 12"
  by (simp add: num_of_int_0 num_of_int_5 num_of_int_7 num_of_int_12) (simp add: fl_eval)

section \<open>The order of the numbers\<close>

lemma num_ge_refl: "a \<noteq> NaN \<Longrightarrow> num_ge a a"
  by (cases a) auto

lemma num_not_gt_ge: "a \<noteq> NaN \<Longrightarrow> b \<noteq> NaN \<Longrightarrow> \<not> num_gt b a \<Longrightarrow> num_ge a b"
  by (cases a; cases b) auto

lemma num_gt_ge_trans: "num_gt a b \<Longrightarrow> num_ge b c \<Longrightarrow> num_gt a c"
  by (cases a; cases b; cases c) auto

lemma num_gt_imp_ge: "num_gt a b \<Longrightarrow> num_ge a b"
  by (cases a; cases b) auto

section \<open>The error of a rounding\<close>

lemma pow2_powi: "pow2 k = 2 powi k"
  by (cases "0 \<le> k") (simp_all add: pow2_def power_int_def inverse_eq_divide power_one_over)

lemma pow2_add: "pow2 (j + k) = pow2 j * pow2 k"
  by (simp add: pow2_powi power_int_add)

lemma pow2_pos: "0 < pow2 k"
  by (simp add: pow2_powi)

lemma round_half_even_error:
  assumes "0 < den"
  shows "2 * \<bar>round_half_even num den * den - num\<bar> \<le> den"
proof -
  define f where "f = num div den"
  define r where "r = num mod den"
  have num: "num = f * den + r"
    by (simp add: f_def r_def)
  have r: "0 \<le> r" "r < den"
    using assms by (simp_all add: r_def)
  have "round_half_even num den = f \<and> 2 * r \<le> den \<or>
        round_half_even num den = f + 1 \<and> den \<le> 2 * r"
    by (auto simp: round_half_even_def Let_def f_def r_def)
  then show ?thesis
  proof
    assume a: "round_half_even num den = f \<and> 2 * r \<le> den"
    then have "round_half_even num den * den - num = - r"
      by (simp add: num)
    then show ?thesis using a r by simp
  next
    assume a: "round_half_even num den = f + 1 \<and> den \<le> 2 * r"
    then have "round_half_even num den * den - num = den - r"
      by (simp add: num algebra_simps)
    then show ?thesis using a r by simp
  qed
qed

lemma round_ratio_error:
  fixes n d :: int
  assumes "0 < d"
  shows "\<bar>(of_int (round_half_even n d) :: rat) - of_int n / of_int d\<bar> \<le> 1 / 2"
proof -
  have d: "(0 :: rat) < of_int d" using assms by simp
  have "(of_int (2 * \<bar>round_half_even n d * d - n\<bar>) :: rat) \<le> of_int d"
    using round_half_even_error[OF assms, of n] by (simp only: of_int_le_iff)
  then have "2 * \<bar>(of_int (round_half_even n d) :: rat) * of_int d - of_int n\<bar> \<le> of_int d"
    by simp
  moreover have "(of_int (round_half_even n d) :: rat) - of_int n / of_int d
      = (of_int (round_half_even n d) * of_int d - of_int n) / of_int d"
    using d by (simp add: field_simps)
  ultimately show ?thesis
    using d by (simp add: abs_divide field_simps)
qed

lemma round_scaled_error:
  assumes "0 < D"
  shows "\<bar>(of_int (round_scaled a D t) :: rat) - of_int a / of_int D * pow2 t\<bar> \<le> 1 / 2"
proof (cases "0 \<le> t")
  case True
  have rs: "round_scaled a D t = round_half_even (a * 2 ^ nat t) D"
    using True by (simp add: round_scaled_def)
  have p: "pow2 t = 2 ^ nat t"
    using True by (simp add: pow2_def)
  have eq: "of_int a / of_int D * pow2 t = (of_int (a * 2 ^ nat t) :: rat) / of_int D"
    unfolding p by simp
  show ?thesis
    unfolding rs eq by (rule round_ratio_error[OF assms])
next
  case False
  have D: "0 < D * 2 ^ nat (- t)" using assms by simp
  have rs: "round_scaled a D t = round_half_even a (D * 2 ^ nat (- t))"
    using False by (simp add: round_scaled_def)
  have p: "pow2 t = 1 / 2 ^ nat (- t)"
    using False by (simp add: pow2_def)
  have eq: "of_int a / of_int D * pow2 t = (of_int a :: rat) / of_int (D * 2 ^ nat (- t))"
    unfolding p by simp
  show ?thesis
    unfolding rs eq by (rule round_ratio_error[OF D])
qed

text \<open>What \<open>pack\<close> makes of a significand: the same value, and no larger a significand.\<close>

lemma pack_val:
  assumes "pack positive m q = Fin m' e'"
  shows "val m' e' = (if positive then 1 else - 1) * of_int m * pow2 q" and "\<bar>m'\<bar> \<le> \<bar>m\<bar>"
proof -
  have two: "pow2 (q + 1) = 2 * pow2 q"
    using pow2_add[of q 1] by (simp add: pow2_def)
  show "val m' e' = (if positive then 1 else - 1) * of_int m * pow2 q"
    using assms by (auto simp: pack_def Let_def val_def two split: if_splits)
  show "\<bar>m'\<bar> \<le> \<bar>m\<bar>"
    using assms by (auto simp: pack_def Let_def split: if_splits)
qed

text \<open>
  A rounding to a normal number is off by at most \<open>2 ^ - 53\<close> of the result.
\<close>

lemma fl_ratio_error:
  assumes D: "0 < D" and fl: "fl_ratio N D s = Fin m e" and m: "2 ^ 52 \<le> \<bar>m\<bar>"
  shows "\<bar>val m e - of_int N / of_int D * pow2 s\<bar> \<le> \<bar>val m e\<bar> / 2 ^ 53"
proof -
  have N: "N \<noteq> 0"
    using fl m by (auto simp: fl_ratio_def)
  define a where "a = \<bar>N\<bar>"
  define q where "q = max (binary_exponent a D + s - 52) (- 1074)"
  define m0 where "m0 = round_scaled a D (s - q)"
  define sg :: rat where "sg = (if 0 < N then 1 else - 1)"
  have pk: "pack (0 < N) m0 q = Fin m e"
    using fl N by (simp add: fl_ratio_def Let_def a_def q_def m0_def)
  have v: "val m e = sg * of_int m0 * pow2 q" and m0: "\<bar>m\<bar> \<le> \<bar>m0\<bar>"
    using pack_val[OF pk] by (simp_all add: sg_def)
  have sg: "\<bar>sg\<bar> = 1" "of_int N = sg * of_int a"
    using N by (auto simp: sg_def a_def)
  have p: "pow2 s = pow2 (s - q) * pow2 q"
    using pow2_add[of "s - q" q] by simp
  define x :: rat where "x = of_int a / of_int D * pow2 (s - q)"
  have r: "\<bar>of_int m0 - x\<bar> \<le> 1 / 2"
    unfolding m0_def x_def by (rule round_scaled_error[OF D])
  have "val m e - of_int N / of_int D * pow2 s = sg * (of_int m0 - x) * pow2 q"
    by (simp add: v sg(2) p x_def algebra_simps)
  then have "\<bar>val m e - of_int N / of_int D * pow2 s\<bar> = \<bar>of_int m0 - x\<bar> * pow2 q"
    using pow2_pos[of q] by (simp add: abs_mult sg(1))
  also have "\<dots> \<le> 1 / 2 * pow2 q"
    using r pow2_pos[of q] by (intro mult_right_mono) simp_all
  finally have err: "\<bar>val m e - of_int N / of_int D * pow2 s\<bar> \<le> 1 / 2 * pow2 q" .
  have "(2 :: int) ^ 52 \<le> \<bar>m0\<bar>" using m m0 by simp
  then have "(of_int ((2 :: int) ^ 52) :: rat) \<le> of_int \<bar>m0\<bar>"
    by (simp only: of_int_le_iff)
  then have "(2 :: rat) ^ 52 \<le> \<bar>of_int m0\<bar>" by simp
  then have "2 ^ 52 * pow2 q \<le> \<bar>of_int m0\<bar> * pow2 q"
    using pow2_pos[of q] by (intro mult_right_mono) simp_all
  moreover have "\<bar>val m e\<bar> = \<bar>of_int m0\<bar> * pow2 q"
    using pow2_pos[of q] by (simp add: v abs_mult sg(1))
  ultimately have "2 ^ 52 * pow2 q \<le> \<bar>val m e\<bar>" by simp
  with err show ?thesis by simp
qed

lemma num_mul_error:
  assumes "normal (num_mul a b)"
  shows "\<bar>num_val (num_mul a b) - num_val a * num_val b\<bar> \<le> \<bar>num_val (num_mul a b)\<bar> / 2 ^ 53"
proof -
  obtain m1 e1 m2 e2 where ab: "a = Fin m1 e1" "b = Fin m2 e2"
    using assms by (cases a; cases b) (auto simp: signed_inf_def split: if_splits)
  obtain m e where r: "fl_ratio (m1 * m2) 1 (e1 + e2) = Fin m e" "2 ^ 52 \<le> \<bar>m\<bar>"
    using assms unfolding ab by (cases "fl_ratio (m1 * m2) 1 (e1 + e2)") auto
  have "\<bar>val m e - of_int (m1 * m2) / of_int 1 * pow2 (e1 + e2)\<bar> \<le> \<bar>val m e\<bar> / 2 ^ 53"
    by (rule fl_ratio_error[OF _ r]) simp
  moreover have "of_int (m1 * m2) / of_int 1 * pow2 (e1 + e2) = val m1 e1 * val m2 e2"
    by (simp add: val_def pow2_add)
  ultimately show ?thesis
    by (simp add: ab r(1))
qed

lemma num_div_error:
  assumes "normal (num_div a (Fin m2 e2))" and "m2 \<noteq> 0"
  shows "\<bar>num_val (num_div a (Fin m2 e2)) - num_val a / val m2 e2\<bar>
           \<le> \<bar>num_val (num_div a (Fin m2 e2))\<bar> / 2 ^ 53"
proof -
  obtain m1 e1 where a: "a = Fin m1 e1"
    using assms by (cases a) (auto split: if_splits)
  obtain m e where r: "fl_ratio (sgn m2 * m1) \<bar>m2\<bar> (e1 - e2) = Fin m e" "2 ^ 52 \<le> \<bar>m\<bar>"
    using assms unfolding a by (cases "fl_ratio (sgn m2 * m1) \<bar>m2\<bar> (e1 - e2)") auto
  have "\<bar>val m e - of_int (sgn m2 * m1) / of_int \<bar>m2\<bar> * pow2 (e1 - e2)\<bar> \<le> \<bar>val m e\<bar> / 2 ^ 53"
    by (rule fl_ratio_error[OF _ r]) (use assms(2) in simp)
  moreover have "of_int (sgn m2 * m1) / of_int \<bar>m2\<bar> * pow2 (e1 - e2) = val m1 e1 / val m2 e2"
  proof -
    have "pow2 e1 = pow2 (e1 - e2) * pow2 e2"
      using pow2_add[of "e1 - e2" e2] by simp
    moreover have "(of_int (sgn m2 * m1) :: rat) / of_int \<bar>m2\<bar> = of_int m1 / of_int m2"
      using assms(2) by (cases "0 < m2") (simp_all add: sgn_if)
    ultimately show ?thesis
      using pow2_pos[of e2] assms(2) by (simp add: val_def)
  qed
  ultimately show ?thesis
    using assms(2) by (simp add: a r(1))
qed

text \<open>
  The two orders of scaling and converting, both in exact arithmetic \<open>k * p * c\<close>:
  four roundings, each off by at most \<open>u\<close> of its result.
\<close>

lemma scale_error:
  fixes L R a b k p c u :: rat
  assumes L: "\<bar>L - a * c\<bar> \<le> u * \<bar>L\<bar>" and a: "\<bar>a - k * p\<bar> \<le> u * \<bar>a\<bar>"
    and b: "\<bar>b - p * c\<bar> \<le> u * \<bar>b\<bar>" and R: "\<bar>R - k * b\<bar> \<le> u * \<bar>R\<bar>"
    and u: "0 \<le> u" "u \<le> 1"
  shows "\<bar>L - R\<bar> \<le> 3 * (u * \<bar>L\<bar>) + 3 * (u * \<bar>R\<bar>)"
proof -
  have uL: "u * \<bar>L\<bar> \<le> \<bar>L\<bar>" and uR: "u * \<bar>R\<bar> \<le> \<bar>R\<bar>"
    using u by (simp_all add: mult_left_le_one_le)
  have ac: "\<bar>a * c\<bar> \<le> 2 * \<bar>L\<bar>" using L uL by linarith
  have kb: "\<bar>k * b\<bar> \<le> 2 * \<bar>R\<bar>" using R uR by linarith
  have "\<bar>a * c - k * p * c\<bar> = \<bar>a - k * p\<bar> * \<bar>c\<bar>"
    by (simp add: abs_mult[symmetric] algebra_simps)
  also have "\<dots> \<le> u * \<bar>a\<bar> * \<bar>c\<bar>"
    using a by (intro mult_right_mono) simp_all
  also have "\<dots> = u * \<bar>a * c\<bar>" by (simp add: abs_mult)
  also have "\<dots> \<le> u * (2 * \<bar>L\<bar>)"
    using ac u(1) by (intro mult_left_mono)
  finally have 1: "\<bar>a * c - k * p * c\<bar> \<le> 2 * (u * \<bar>L\<bar>)" by simp
  have "\<bar>k * b - k * p * c\<bar> = \<bar>k\<bar> * \<bar>b - p * c\<bar>"
    by (simp add: abs_mult[symmetric] algebra_simps)
  also have "\<dots> \<le> \<bar>k\<bar> * (u * \<bar>b\<bar>)"
    using b by (intro mult_left_mono) simp_all
  also have "\<dots> = u * \<bar>k * b\<bar>" by (simp add: abs_mult)
  also have "\<dots> \<le> u * (2 * \<bar>R\<bar>)"
    using kb u(1) by (intro mult_left_mono)
  finally have 2: "\<bar>k * b - k * p * c\<bar> \<le> 2 * (u * \<bar>R\<bar>)" by simp
  show ?thesis using L R 1 2 by linarith
qed

section \<open>Total price and monthly cost\<close>

text \<open>
  C3. \<^verbatim>\<open>getTotalPrice\<close> returns the sum of the amounts of the charges, added from the left
  starting at zero, when the list of charges exists and is not empty, and the flat
  price when the list is absent or empty.
\<close>

theorem getTotalPrice_charges_or_price:
  "(\<forall>cs. charges sub = Some cs \<and> cs \<noteq> [] \<longrightarrow>
      getTotalPrice sub = foldl num_add (num_of_int 0) (map amount cs)) \<and>
   (charges sub = None \<or> charges sub = Some [] \<longrightarrow> getTotalPrice sub = price sub)"
  by (auto simp: getTotalPrice_def foldl_map)

theorem getTotalPrice_charges_or_price_witness:
  "charges (example_sub 100 ''USD'' ''monthly'' 0 (Some [example_charge 5, example_charge 7]))
     = Some [example_charge 5, example_charge 7] \<and>
   [example_charge 5, example_charge 7] \<noteq> [] \<and>
   getTotalPrice (example_sub 100 ''USD'' ''monthly'' 0 (Some [example_charge 5, example_charge 7]))
     = num_of_int 12 \<and>
   charges (example_sub 100 ''USD'' ''monthly'' 0 None) = None \<and>
   getTotalPrice (example_sub 100 ''USD'' ''monthly'' 0 None) = num_of_int 100"
  using getTotalPrice_charges_or_price
          [of "example_sub 100 ''USD'' ''monthly'' 0 (Some [example_charge 5, example_charge 7])"]
        getTotalPrice_charges_or_price [of "example_sub 100 ''USD'' ''monthly'' 0 None"]
  by (simp add: example_sub_def example_charge_def add_5_7)

text \<open>
  C4. \<^verbatim>\<open>calculateMonthlyCost\<close> multiplies the price by \<open>4.33\<close> for weekly and by \<open>2.17\<close>
  for bi-weekly, returns it unchanged for monthly, divides it by \<open>3\<close>, \<open>6\<close> and \<open>12\<close>
  for quarterly, semi-annually and yearly, and returns it unchanged for every other
  duration.
\<close>

theorem calculateMonthlyCost_table:
  "calculateMonthlyCost p ''weekly'' = num_mul p (lit 433 100) \<and>
   calculateMonthlyCost p ''bi-weekly'' = num_mul p (lit 217 100) \<and>
   calculateMonthlyCost p ''monthly'' = p \<and>
   calculateMonthlyCost p ''quarterly'' = num_div p (num_of_int 3) \<and>
   calculateMonthlyCost p ''semi-annually'' = num_div p (num_of_int 6) \<and>
   calculateMonthlyCost p ''yearly'' = num_div p (num_of_int 12) \<and>
   (d \<notin> {''weekly'', ''bi-weekly'', ''monthly'', ''quarterly'', ''semi-annually'', ''yearly''}
      \<longrightarrow> calculateMonthlyCost p d = p)"
  by (simp add: calculateMonthlyCost_def)

theorem calculateMonthlyCost_table_witness:
  "''daily'' \<notin> {''weekly'', ''bi-weekly'', ''monthly'', ''quarterly'', ''semi-annually'', ''yearly''} \<and>
   calculateMonthlyCost (num_of_int 12) ''daily'' = num_of_int 12 \<and>
   calculateMonthlyCost (num_of_int 5) ''weekly'' = Fin 6093933245785702 (- 48)"
proof -
  have "num_mul (num_of_int 5) (lit 433 100) = Fin 6093933245785702 (- 48)"
    by (simp add: num_of_int_5 lit_433) (simp add: fl_eval)
  then show ?thesis
    using calculateMonthlyCost_table [of "num_of_int 12" "''daily''"]
          calculateMonthlyCost_table [of "num_of_int 5" "''daily''"]
    by simp
qed

text \<open>
  The two sides of the scaling identity at the inputs where they differ, one input for
  each of the five durations that convert the price.
\<close>

lemma scale_weekly:
  "calculateMonthlyCost (num_mul (num_of_int 3) (num_of_int 5)) ''weekly''
     = Fin 4570449934339277 (- 46)"
  "num_mul (num_of_int 3) (calculateMonthlyCost (num_of_int 5) ''weekly'')
     = Fin 4570449934339276 (- 46)"
  by (simp add: calculateMonthlyCost_def num_of_int_3 num_of_int_5 lit_433, simp add: fl_eval)+

lemma scale_bi_weekly:
  "calculateMonthlyCost (num_mul (num_of_int 3) (num_of_int 9)) ''bi-weekly''
     = Fin 8245809442738667 (- 47)"
  "num_mul (num_of_int 3) (calculateMonthlyCost (num_of_int 9) ''bi-weekly'')
     = Fin 8245809442738668 (- 47)"
  by (simp add: calculateMonthlyCost_def num_of_int_3 num_of_int_9 lit_217, simp add: fl_eval)+

lemma mul_5_1: "num_mul (num_of_int 5) (num_of_int 1) = Fin 5629499534213120 (- 50)"
  by (simp add: num_of_int_5 num_of_int_1) (simp add: fl_eval)

lemma scale_quarterly:
  "calculateMonthlyCost (num_mul (num_of_int 5) (num_of_int 1)) ''quarterly''
     = Fin 7505999378950827 (- 52)"
  "num_mul (num_of_int 5) (calculateMonthlyCost (num_of_int 1) ''quarterly'')
     = Fin 7505999378950826 (- 52)"
  by (simp add: calculateMonthlyCost_def mul_5_1 num_of_int_1 num_of_int_3 num_of_int_5,
      simp add: fl_eval)+

lemma scale_semi_annually:
  "calculateMonthlyCost (num_mul (num_of_int 5) (num_of_int 1)) ''semi-annually''
     = Fin 7505999378950827 (- 53)"
  "num_mul (num_of_int 5) (calculateMonthlyCost (num_of_int 1) ''semi-annually'')
     = Fin 7505999378950826 (- 53)"
  by (simp add: calculateMonthlyCost_def mul_5_1 num_of_int_1 num_of_int_6 num_of_int_5,
      simp add: fl_eval)+

lemma scale_yearly:
  "calculateMonthlyCost (num_mul (num_of_int 5) (num_of_int 1)) ''yearly''
     = Fin 7505999378950827 (- 54)"
  "num_mul (num_of_int 5) (calculateMonthlyCost (num_of_int 1) ''yearly'')
     = Fin 7505999378950826 (- 54)"
  by (simp add: calculateMonthlyCost_def mul_5_1 num_of_int_1 num_of_int_12 num_of_int_5,
      simp add: fl_eval)+

lemma cost_5_weekly:
  "calculateMonthlyCost (num_of_int 5) ''weekly'' = Fin 6093933245785702 (- 48)"
  by (simp add: calculateMonthlyCost_def num_of_int_5 lit_433) (simp add: fl_eval)

lemma scale_mul:
  assumes "normal (num_mul k p)" "normal (num_mul p c)"
    "normal (num_mul (num_mul k p) c)" "normal (num_mul k (num_mul p c))"
  shows "\<bar>num_val (num_mul (num_mul k p) c) - num_val (num_mul k (num_mul p c))\<bar>
           \<le> (\<bar>num_val (num_mul (num_mul k p) c)\<bar> + \<bar>num_val (num_mul k (num_mul p c))\<bar>)
                * 3 / 2 ^ 53"
proof -
  define u :: rat where "u = 1 / 2 ^ 53"
  have u: "0 \<le> u" "u \<le> 1" by (simp_all add: u_def)
  have "\<bar>num_val (num_mul (num_mul k p) c) - num_val (num_mul k (num_mul p c))\<bar>
          \<le> 3 * (u * \<bar>num_val (num_mul (num_mul k p) c)\<bar>)
            + 3 * (u * \<bar>num_val (num_mul k (num_mul p c))\<bar>)"
  proof (rule scale_error[where a = "num_val (num_mul k p)" and b = "num_val (num_mul p c)"
          and k = "num_val k" and p = "num_val p" and c = "num_val c", OF _ _ _ _ u])
    show "\<bar>num_val (num_mul (num_mul k p) c) - num_val (num_mul k p) * num_val c\<bar>
            \<le> u * \<bar>num_val (num_mul (num_mul k p) c)\<bar>"
      using num_mul_error[OF assms(3)] by (simp add: u_def)
    show "\<bar>num_val (num_mul k p) - num_val k * num_val p\<bar> \<le> u * \<bar>num_val (num_mul k p)\<bar>"
      using num_mul_error[OF assms(1)] by (simp add: u_def)
    show "\<bar>num_val (num_mul p c) - num_val p * num_val c\<bar> \<le> u * \<bar>num_val (num_mul p c)\<bar>"
      using num_mul_error[OF assms(2)] by (simp add: u_def)
    show "\<bar>num_val (num_mul k (num_mul p c)) - num_val k * num_val (num_mul p c)\<bar>
            \<le> u * \<bar>num_val (num_mul k (num_mul p c))\<bar>"
      using num_mul_error[OF assms(4)] by (simp add: u_def)
  qed
  then show ?thesis by (simp add: u_def)
qed

lemma scale_div:
  assumes "normal (num_mul k p)" "normal (num_div p (Fin m2 e2))"
    "normal (num_div (num_mul k p) (Fin m2 e2))" "normal (num_mul k (num_div p (Fin m2 e2)))"
    and m2: "m2 \<noteq> 0"
  shows "\<bar>num_val (num_div (num_mul k p) (Fin m2 e2))
            - num_val (num_mul k (num_div p (Fin m2 e2)))\<bar>
           \<le> (\<bar>num_val (num_div (num_mul k p) (Fin m2 e2))\<bar>
                + \<bar>num_val (num_mul k (num_div p (Fin m2 e2)))\<bar>) * 3 / 2 ^ 53"
proof -
  define u :: rat where "u = 1 / 2 ^ 53"
  define c :: rat where "c = 1 / val m2 e2"
  have u: "0 \<le> u" "u \<le> 1" by (simp_all add: u_def)
  have "\<bar>num_val (num_div (num_mul k p) (Fin m2 e2))
            - num_val (num_mul k (num_div p (Fin m2 e2)))\<bar>
          \<le> 3 * (u * \<bar>num_val (num_div (num_mul k p) (Fin m2 e2))\<bar>)
            + 3 * (u * \<bar>num_val (num_mul k (num_div p (Fin m2 e2)))\<bar>)"
  proof (rule scale_error[where a = "num_val (num_mul k p)"
          and b = "num_val (num_div p (Fin m2 e2))"
          and k = "num_val k" and p = "num_val p" and c = c, OF _ _ _ _ u])
    show "\<bar>num_val (num_div (num_mul k p) (Fin m2 e2)) - num_val (num_mul k p) * c\<bar>
            \<le> u * \<bar>num_val (num_div (num_mul k p) (Fin m2 e2))\<bar>"
      using num_div_error[OF assms(3) m2] by (simp add: u_def c_def)
    show "\<bar>num_val (num_mul k p) - num_val k * num_val p\<bar> \<le> u * \<bar>num_val (num_mul k p)\<bar>"
      using num_mul_error[OF assms(1)] by (simp add: u_def)
    show "\<bar>num_val (num_div p (Fin m2 e2)) - num_val p * c\<bar>
            \<le> u * \<bar>num_val (num_div p (Fin m2 e2))\<bar>"
      using num_div_error[OF assms(2) m2] by (simp add: u_def c_def)
    show "\<bar>num_val (num_mul k (num_div p (Fin m2 e2)))
             - num_val k * num_val (num_div p (Fin m2 e2))\<bar>
            \<le> u * \<bar>num_val (num_mul k (num_div p (Fin m2 e2)))\<bar>"
      using num_mul_error[OF assms(4)] by (simp add: u_def)
  qed
  then show ?thesis by (simp add: u_def)
qed

text \<open>
  C5, as the code has it. Scaling the price commutes with \<^verbatim>\<open>calculateMonthlyCost\<close>
  exactly for the durations on which the function returns its argument, monthly and
  every unrecognised one. For every duration, the five that convert the price among
  them, the two sides are equal up to rounding: when the scaled price \<open>k * price\<close>,
  the monthly cost of the price and the two sides are finite numbers in the normal
  range of binary64, the two sides differ by at most \<open>3 / 2 ^ 53\<close> of the sum of
  their magnitudes.
\<close>

theorem calculateMonthlyCost_scale_linear:
  "(d \<notin> {''weekly'', ''bi-weekly'', ''quarterly'', ''semi-annually'', ''yearly''} \<longrightarrow>
      calculateMonthlyCost (num_mul k p) d = num_mul k (calculateMonthlyCost p d)) \<and>
   (normal (num_mul k p) \<and> normal (calculateMonthlyCost p d) \<and>
    normal (calculateMonthlyCost (num_mul k p) d) \<and>
    normal (num_mul k (calculateMonthlyCost p d)) \<longrightarrow>
      \<bar>num_val (calculateMonthlyCost (num_mul k p) d)
         - num_val (num_mul k (calculateMonthlyCost p d))\<bar>
        \<le> (\<bar>num_val (calculateMonthlyCost (num_mul k p) d)\<bar>
             + \<bar>num_val (num_mul k (calculateMonthlyCost p d))\<bar>) * 3 / 2 ^ 53)"
proof (intro conjI impI)
  assume "d \<notin> {''weekly'', ''bi-weekly'', ''quarterly'', ''semi-annually'', ''yearly''}"
  then show "calculateMonthlyCost (num_mul k p) d = num_mul k (calculateMonthlyCost p d)"
    by (simp add: calculateMonthlyCost_def)
next
  assume n: "normal (num_mul k p) \<and> normal (calculateMonthlyCost p d) \<and>
    normal (calculateMonthlyCost (num_mul k p) d) \<and>
    normal (num_mul k (calculateMonthlyCost p d))"
  consider "d = ''weekly''" | "d = ''bi-weekly''" | "d = ''quarterly''"
    | "d = ''semi-annually''" | "d = ''yearly''"
    | "d \<notin> {''weekly'', ''bi-weekly'', ''quarterly'', ''semi-annually'', ''yearly''}"
    by blast
  then show "\<bar>num_val (calculateMonthlyCost (num_mul k p) d)
         - num_val (num_mul k (calculateMonthlyCost p d))\<bar>
        \<le> (\<bar>num_val (calculateMonthlyCost (num_mul k p) d)\<bar>
             + \<bar>num_val (num_mul k (calculateMonthlyCost p d))\<bar>) * 3 / 2 ^ 53"
  proof cases
    case 1
    have c: "\<And>x. calculateMonthlyCost x d = num_mul x (lit 433 100)"
      by (simp add: 1 calculateMonthlyCost_def)
    show ?thesis using n unfolding c by (intro scale_mul) simp_all
  next
    case 2
    have c: "\<And>x. calculateMonthlyCost x d = num_mul x (lit 217 100)"
      by (simp add: 2 calculateMonthlyCost_def)
    show ?thesis using n unfolding c by (intro scale_mul) simp_all
  next
    case 3
    have c: "\<And>x. calculateMonthlyCost x d = num_div x (Fin 6755399441055744 (- 51))"
      by (simp add: 3 calculateMonthlyCost_def num_of_int_3)
    show ?thesis using n unfolding c by (intro scale_div) simp_all
  next
    case 4
    have c: "\<And>x. calculateMonthlyCost x d = num_div x (Fin 6755399441055744 (- 50))"
      by (simp add: 4 calculateMonthlyCost_def num_of_int_6)
    show ?thesis using n unfolding c by (intro scale_div) simp_all
  next
    case 5
    have c: "\<And>x. calculateMonthlyCost x d = num_div x (Fin 6755399441055744 (- 49))"
      by (simp add: 5 calculateMonthlyCost_def num_of_int_12)
    show ?thesis using n unfolding c by (intro scale_div) simp_all
  next
    case 6
    then have "calculateMonthlyCost (num_mul k p) d = num_mul k (calculateMonthlyCost p d)"
      by (simp add: calculateMonthlyCost_def)
    then show ?thesis by simp
  qed
qed


text \<open>
  With \<open>k = 3\<close> and a price of \<open>5\<close>: \<open>15\<close> for a monthly subscription on both
  sides, and for a weekly one two numbers in the normal range within the bound.
\<close>

theorem calculateMonthlyCost_scale_linear_witness:
  "''monthly'' \<notin> {''weekly'', ''bi-weekly'', ''quarterly'', ''semi-annually'', ''yearly''} \<and>
   calculateMonthlyCost (num_mul (num_of_int 3) (num_of_int 5)) ''monthly'' = num_of_int 15 \<and>
   num_mul (num_of_int 3) (calculateMonthlyCost (num_of_int 5) ''monthly'') = num_of_int 15 \<and>
   normal (num_mul (num_of_int 3) (num_of_int 5)) \<and>
   normal (calculateMonthlyCost (num_of_int 5) ''weekly'') \<and>
   normal (calculateMonthlyCost (num_mul (num_of_int 3) (num_of_int 5)) ''weekly'') \<and>
   normal (num_mul (num_of_int 3) (calculateMonthlyCost (num_of_int 5) ''weekly'')) \<and>
   \<bar>num_val (calculateMonthlyCost (num_mul (num_of_int 3) (num_of_int 5)) ''weekly'')
      - num_val (num_mul (num_of_int 3) (calculateMonthlyCost (num_of_int 5) ''weekly''))\<bar>
     \<le> (\<bar>num_val (calculateMonthlyCost (num_mul (num_of_int 3) (num_of_int 5)) ''weekly'')\<bar>
          + \<bar>num_val (num_mul (num_of_int 3) (calculateMonthlyCost (num_of_int 5) ''weekly''))\<bar>)
         * 3 / 2 ^ 53"
proof -
  have n: "normal (num_mul (num_of_int 3) (num_of_int 5))"
    "normal (calculateMonthlyCost (num_of_int 5) ''weekly'')"
    "normal (calculateMonthlyCost (num_mul (num_of_int 3) (num_of_int 5)) ''weekly'')"
    "normal (num_mul (num_of_int 3) (calculateMonthlyCost (num_of_int 5) ''weekly''))"
       apply (simp add: mul_3_5 num_of_int_15)
      apply (simp add: cost_5_weekly)
     apply (simp add: scale_weekly)
    apply (simp add: scale_weekly)
    done
  have m: "calculateMonthlyCost (num_mul (num_of_int 3) (num_of_int 5)) ''monthly'' = num_of_int 15"
    "num_mul (num_of_int 3) (calculateMonthlyCost (num_of_int 5) ''monthly'') = num_of_int 15"
    by (simp_all add: calculateMonthlyCost_def mul_3_5)
  show ?thesis
    using calculateMonthlyCost_scale_linear [of "''weekly''" "num_of_int 3" "num_of_int 5"]
          calculateMonthlyCost_scale_linear [of "''monthly''" "num_of_int 3" "num_of_int 5"]
          n m
    by simp
qed

text \<open>
  The claim as the specification states it, an equality, fails for each of the five
  durations that convert the price. For a weekly subscription with \<open>k = 3\<close> and a
  price of \<open>5\<close>, \<open>15 * 4.33\<close> is \<open>64.95\<close>, while \<open>3 * (5 * 4.33)\<close> is
  \<open>64.94999999999999\<close>, one unit in the last place below. The two sides also differ
  for a bi-weekly subscription with \<open>k = 3\<close> and a price of \<open>9\<close>, and for a
  quarterly, a semi-annual and a yearly one with \<open>k = 5\<close> and a price of \<open>1\<close>.
\<close>

theorem calculateMonthlyCost_scale_counterexample:
  "calculateMonthlyCost (num_mul (num_of_int 3) (num_of_int 5)) ''weekly''
     = Fin 4570449934339277 (- 46) \<and>
   num_mul (num_of_int 3) (calculateMonthlyCost (num_of_int 5) ''weekly'')
     = Fin 4570449934339276 (- 46) \<and>
   calculateMonthlyCost (num_mul (num_of_int 3) (num_of_int 5)) ''weekly''
     \<noteq> num_mul (num_of_int 3) (calculateMonthlyCost (num_of_int 5) ''weekly'') \<and>
   calculateMonthlyCost (num_mul (num_of_int 3) (num_of_int 9)) ''bi-weekly''
     \<noteq> num_mul (num_of_int 3) (calculateMonthlyCost (num_of_int 9) ''bi-weekly'') \<and>
   calculateMonthlyCost (num_mul (num_of_int 5) (num_of_int 1)) ''quarterly''
     \<noteq> num_mul (num_of_int 5) (calculateMonthlyCost (num_of_int 1) ''quarterly'') \<and>
   calculateMonthlyCost (num_mul (num_of_int 5) (num_of_int 1)) ''semi-annually''
     \<noteq> num_mul (num_of_int 5) (calculateMonthlyCost (num_of_int 1) ''semi-annually'') \<and>
   calculateMonthlyCost (num_mul (num_of_int 5) (num_of_int 1)) ''yearly''
     \<noteq> num_mul (num_of_int 5) (calculateMonthlyCost (num_of_int 1) ''yearly'')"
  by (simp add: scale_weekly scale_bi_weekly scale_quarterly scale_semi_annually scale_yearly)

text \<open>
  C9. On the empty list \<^verbatim>\<open>getMostCostlySubscription\<close> and \<^verbatim>\<open>getNextRenewal\<close> return
  null and \<^verbatim>\<open>calculateAverageMonthlyCost\<close> returns zero; none of them raises.
\<close>

theorem empty_list_neutral:
  "getMostCostlySubscription [] = None \<and>
   calculateAverageMonthlyCost [] = Fin 0 0 \<and>
   getNextRenewal tz now [] = None"
  by (simp add: getMostCostlySubscription_def calculateAverageMonthlyCost_def
        getNextRenewal_def num_of_int_0)

section \<open>The elapsed cost of a subscription\<close>

text \<open>
  C2. For a subscription with a valid start date \<open>s\<close>, at a clock less than \<open>2 ^ 53\<close>
  milliseconds after it, where the difference of the two times is exact,
  \<^verbatim>\<open>calculateTotalSpent\<close> returns zero when \<open>s\<close> is after \<open>now\<close>, and otherwise the
  total price times \<open>floor (daysSinceStart / daysInDuration) + 1\<close>, where
  \<open>daysSinceStart\<close> is the whole number of days from \<open>s\<close> to \<open>now\<close> and
  \<open>daysInDuration\<close> is 7, 14, 30, 90, 180 or 365, and 30 for any other duration. A
  monthly subscription of price 12 whose start is 40 whole days back yields 24.
\<close>

theorem calculateTotalSpent_cycles:
  "(startDate sub = Some s \<and> \<bar>s\<bar> \<le> 8640000000000000 \<and> \<bar>now\<bar> \<le> 8640000000000000 \<and>
    now - s < 9007199254740992 \<longrightarrow>
      calculateTotalSpent now sub =
        (if now < s then Fin 0 0
         else num_mul (getTotalPrice sub)
                (num_of_int
                   ((now - s) div 86400000 div getDaysInDuration (recurringDuration sub) + 1)))) \<and>
   getDaysInDuration ''weekly'' = 7 \<and> getDaysInDuration ''bi-weekly'' = 14 \<and>
   getDaysInDuration ''monthly'' = 30 \<and> getDaysInDuration ''quarterly'' = 90 \<and>
   getDaysInDuration ''semi-annually'' = 180 \<and> getDaysInDuration ''yearly'' = 365 \<and>
   (d \<notin> {''weekly'', ''bi-weekly'', ''monthly'', ''quarterly'', ''semi-annually'', ''yearly''}
      \<longrightarrow> getDaysInDuration d = 30) \<and>
   (startDate sub = Some s \<and> (now - s) div 86400000 = 40 \<and>
    recurringDuration sub = ''monthly'' \<and> getTotalPrice sub = num_of_int 12
      \<longrightarrow> calculateTotalSpent now sub = num_of_int 24)"
proof -
  have formula: "calculateTotalSpent now sub =
        (if now < s then Fin 0 0
         else num_mul (getTotalPrice sub)
                (num_of_int
                   ((now - s) div 86400000 div getDaysInDuration (recurringDuration sub) + 1)))"
    if "startDate sub = Some s"
    using that
    by (simp add: calculateTotalSpent_def date_gt_def n_floor_div_def n_sub_def n_add_def
          getTime_def n_to_number_def msPerDay_def Let_def num_of_int_0)
  have table: "getDaysInDuration ''weekly'' = 7 \<and> getDaysInDuration ''bi-weekly'' = 14 \<and>
   getDaysInDuration ''monthly'' = 30 \<and> getDaysInDuration ''quarterly'' = 90 \<and>
   getDaysInDuration ''semi-annually'' = 180 \<and> getDaysInDuration ''yearly'' = 365 \<and>
   (d \<notin> {''weekly'', ''bi-weekly'', ''monthly'', ''quarterly'', ''semi-annually'', ''yearly''}
      \<longrightarrow> getDaysInDuration d = 30)"
    by (simp add: getDaysInDuration_def)
  have scenario: "calculateTotalSpent now sub = num_of_int 24"
    if "startDate sub = Some s" "(now - s) div 86400000 = 40"
       "recurringDuration sub = ''monthly''" "getTotalPrice sub = num_of_int 12"
  proof -
    have "\<not> now < s"
    proof
      assume "now < s"
      then have "(now - s) div 86400000 < 0" by (intro div_neg_pos_less0) simp_all
      with that(2) show False by simp
    qed
    then show ?thesis
      using formula[OF that(1)] that(2-4) mul_12_2 by (simp add: getDaysInDuration_def)
  qed
  show ?thesis
    apply (intro conjI impI)
    using formula table scenario by simp_all
qed

text \<open>
  A monthly subscription of price 12 started on 24 September 2026, seen 40 days later
  and seen one millisecond before its start.
\<close>

theorem calculateTotalSpent_cycles_witness:
  "startDate (example_sub 12 ''USD'' ''monthly'' 1790251200000 None) = Some 1790251200000 \<and>
   \<bar>1790251200000 :: int\<bar> \<le> 8640000000000000 \<and> \<bar>1793707200000 :: int\<bar> \<le> 8640000000000000 \<and>
   (1793707200000 :: int) - 1790251200000 < 9007199254740992 \<and>
   (1793707200000 - 1790251200000) div 86400000 = (40 :: int) \<and>
   ''daily'' \<notin> {''weekly'', ''bi-weekly'', ''monthly'', ''quarterly'', ''semi-annually'', ''yearly''} \<and>
   getDaysInDuration ''daily'' = 30 \<and>
   calculateTotalSpent 1793707200000 (example_sub 12 ''USD'' ''monthly'' 1790251200000 None)
     = num_of_int 24 \<and>
   calculateTotalSpent 1790251199999 (example_sub 12 ''USD'' ''monthly'' 1790251200000 None)
     = Fin 0 0"
  using calculateTotalSpent_cycles
          [of "example_sub 12 ''USD'' ''monthly'' 1790251200000 None" 1790251200000
              1793707200000 "''daily''"]
        calculateTotalSpent_cycles
          [of "example_sub 12 ''USD'' ''monthly'' 1790251200000 None" 1790251200000
              1790251199999 "''daily''"]
  by (simp add: example_sub_def getTotalPrice_def mul_12_2)

section \<open>The most costly subscription\<close>

lemma getMostCostly_pick:
  "getMostCostlySubscription (x # xs) = Some (foldl pick x xs)"
proof -
  have "(\<lambda>mostCostly current.
                  (let mostCostlyTotal = getTotalPrice mostCostly;
                       currentTotal = getTotalPrice current;
                       mostCostlyMonthly =
                         calculateMonthlyCost mostCostlyTotal (recurringDuration mostCostly);
                       currentMonthly =
                         calculateMonthlyCost currentTotal (recurringDuration current)
                   in if num_gt currentMonthly mostCostlyMonthly then current else mostCostly)) = pick"
    by (intro ext) (simp add: pick_def monthlyOf_def)
  then show ?thesis by (simp add: getMostCostlySubscription_def)
qed

lemma foldl_pick_first_max:
  assumes "\<forall>s \<in> set (x # xs). monthlyOf s \<noteq> NaN"
  shows "\<exists>i < length (x # xs). foldl pick x xs = (x # xs) ! i \<and>
           (\<forall>s \<in> set (x # xs). num_ge (monthlyOf ((x # xs) ! i)) (monthlyOf s)) \<and>
           (\<forall>j < i. num_gt (monthlyOf ((x # xs) ! i)) (monthlyOf ((x # xs) ! j)))"
  using assms
proof (induction xs rule: rev_induct)
  case Nil
  then show ?case by (auto intro: num_ge_refl)
next
  case (snoc y ys)
  then obtain i where i: "i < length (x # ys)" "foldl pick x ys = (x # ys) ! i"
    "\<forall>s \<in> set (x # ys). num_ge (monthlyOf ((x # ys) ! i)) (monthlyOf s)"
    "\<forall>j < i. num_gt (monthlyOf ((x # ys) ! i)) (monthlyOf ((x # ys) ! j))"
    by auto
  let ?zs = "x # ys @ [y]"
  have nth_old: "\<And>j. j < length (x # ys) \<Longrightarrow> ?zs ! j = (x # ys) ! j"
    by (metis append_Cons nth_append)
  have nan: "monthlyOf y \<noteq> NaN" "monthlyOf ((x # ys) ! i) \<noteq> NaN"
    using snoc.prems i(1) by (auto simp del: nth_Cons' simp: nth_Cons split: nat.splits)
  show ?case
  proof (cases "num_gt (monthlyOf y) (monthlyOf ((x # ys) ! i))")
    case True
    have res: "foldl pick x (ys @ [y]) = ?zs ! length (x # ys)"
      using True i(2) by (simp add: pick_def nth_append)
    have ge: "\<forall>s \<in> set ?zs. num_ge (monthlyOf y) (monthlyOf s)"
      using True i(3) nan by (auto intro: num_ge_refl num_gt_imp_ge num_gt_ge_trans)
    have gt: "\<forall>j < length (x # ys). num_gt (monthlyOf y) (monthlyOf (?zs ! j))"
    proof (intro allI impI)
      fix j assume j: "j < length (x # ys)"
      then have "(x # ys) ! j \<in> set (x # ys)" by (rule nth_mem)
      then have "num_ge (monthlyOf ((x # ys) ! i)) (monthlyOf ((x # ys) ! j))" using i(3) by blast
      with True have "num_gt (monthlyOf y) (monthlyOf ((x # ys) ! j))" by (rule num_gt_ge_trans)
      then show "num_gt (monthlyOf y) (monthlyOf (?zs ! j))" using nth_old[OF j] by simp
    qed
    have last: "?zs ! length (x # ys) = y"
      by (metis append_Cons nth_append_length)
    show ?thesis
      apply (rule exI[of _ "length (x # ys)"])
      using res ge gt last by (simp del: nth_Cons' foldl_append)
  next
    case False
    have res: "foldl pick x (ys @ [y]) = ?zs ! i"
      using False i(1,2) nth_old[of i] by (simp add: pick_def)
    have "num_ge (monthlyOf ((x # ys) ! i)) (monthlyOf y)"
      using False nan by (intro num_not_gt_ge) auto
    then have ge: "\<forall>s \<in> set ?zs. num_ge (monthlyOf (?zs ! i)) (monthlyOf s)"
      using i(1,3) nth_old[of i] by auto
    have gt: "\<forall>j < i. num_gt (monthlyOf (?zs ! i)) (monthlyOf (?zs ! j))"
      using i(1,4) nth_old by (metis less_trans)
    show ?thesis
      apply (rule exI[of _ i])
      using res ge gt i(1) by (simp del: nth_Cons' foldl_append)
  qed
qed

lemma example_monthly:
  "monthlyOf (example_sub 12 ''USD'' ''monthly'' 0 None) = Fin 6755399441055744 (- 49)"
  "monthlyOf (example_sub 15 ''USD'' ''monthly'' t None) = Fin 8444249301319680 (- 49)"
  "monthlyOf (example_sub 3 ''USD'' ''weekly'' 2 None) = Fin 7312719894942843 (- 49)"
    apply (simp_all add: monthlyOf_def example_sub_def getTotalPrice_def calculateMonthlyCost_def
        num_of_int_12 num_of_int_15 num_of_int_3 lit_433)
  apply (simp add: fl_eval)
  done

lemma example_most_costly:
  "getMostCostlySubscription example_subs = Some (example_sub 15 ''USD'' ''monthly'' 1 None)"
  by (simp add: example_subs_def getMostCostly_pick pick_def example_monthly val_def pow2_def)

lemma example_nan_monthly: "monthlyOf example_nan = NaN"
  by (simp add: monthlyOf_def example_nan_def getTotalPrice_def calculateMonthlyCost_def)

text \<open>
  C6, as the code has it. For a list that is not empty and in which no monthly cost is
  NaN, \<^verbatim>\<open>getMostCostlySubscription\<close> returns an element whose monthly cost is at least
  that of every element, and every element before it in the list has a strictly smaller
  monthly cost: it is the first of those at the maximum. For the empty list it returns
  null.
\<close>

theorem getMostCostlySubscription_first_max:
  "getMostCostlySubscription [] = None \<and>
   (subs \<noteq> [] \<and> (\<forall>s \<in> set subs. monthlyOf s \<noteq> NaN) \<longrightarrow>
      (\<exists>i < length subs.
          getMostCostlySubscription subs = Some (subs ! i) \<and>
          (\<forall>s \<in> set subs. num_ge (monthlyOf (subs ! i)) (monthlyOf s)) \<and>
          (\<forall>j < i. num_gt (monthlyOf (subs ! i)) (monthlyOf (subs ! j)))))"
proof (intro conjI impI)
  show "getMostCostlySubscription [] = None"
    by (simp add: getMostCostlySubscription_def)
next
  assume a: "subs \<noteq> [] \<and> (\<forall>s \<in> set subs. monthlyOf s \<noteq> NaN)"
  then obtain x xs where subs: "subs = x # xs" by (cases subs) auto
  have "\<forall>s \<in> set (x # xs). monthlyOf s \<noteq> NaN"
    using a subs by blast
  from foldl_pick_first_max[OF this] show "\<exists>i < length subs.
          getMostCostlySubscription subs = Some (subs ! i) \<and>
          (\<forall>s \<in> set subs. num_ge (monthlyOf (subs ! i)) (monthlyOf s)) \<and>
          (\<forall>j < i. num_gt (monthlyOf (subs ! i)) (monthlyOf (subs ! j)))"
    unfolding subs getMostCostly_pick by blast
qed

text \<open>
  Of monthly costs 12, 15, 12.99 and 15 the second subscription is returned, not the
  fourth.
\<close>

theorem getMostCostlySubscription_first_max_witness:
  "example_subs \<noteq> [] \<and> list_all (\<lambda>s. monthlyOf s \<noteq> NaN) example_subs \<and>
   (\<exists>i < length example_subs.
       getMostCostlySubscription example_subs = Some (example_subs ! i) \<and>
       (\<forall>s \<in> set example_subs. num_ge (monthlyOf (example_subs ! i)) (monthlyOf s)) \<and>
       (\<forall>j < i. num_gt (monthlyOf (example_subs ! i)) (monthlyOf (example_subs ! j)))) \<and>
   getMostCostlySubscription example_subs = Some (example_sub 15 ''USD'' ''monthly'' 1 None)"
proof -
  have ne: "example_subs \<noteq> []"
    by (simp add: example_subs_def)
  have fin: "\<forall>s \<in> set example_subs. monthlyOf s \<noteq> NaN"
    by (simp add: example_subs_def example_monthly)
  have "list_all (\<lambda>s. monthlyOf s \<noteq> NaN) example_subs"
    using fin by (simp add: list_all_iff)
  then show ?thesis
    using getMostCostlySubscription_first_max [of example_subs] ne fin example_most_costly
    by blast
qed

text \<open>
  The claim as the specification states it, for every list that is not empty, fails
  when a monthly cost is NaN, which no comparison orders. Of a subscription whose price
  is NaN followed by one of price 12, the first is returned: \<open>12 > NaN\<close> is false, so
  the accumulator stays, and its cost is not greater than or equal to \<open>12\<close>.
\<close>

theorem getMostCostlySubscription_first_max_counterexample:
  "[example_nan, example_sub 12 ''USD'' ''monthly'' 0 None] \<noteq> [] \<and>
   getMostCostlySubscription [example_nan, example_sub 12 ''USD'' ''monthly'' 0 None]
     = Some example_nan \<and>
   example_sub 12 ''USD'' ''monthly'' 0 None
     \<in> set [example_nan, example_sub 12 ''USD'' ''monthly'' 0 None] \<and>
   \<not> num_ge (monthlyOf example_nan) (monthlyOf (example_sub 12 ''USD'' ''monthly'' 0 None))"
  by (simp add: getMostCostly_pick pick_def example_nan_monthly example_monthly)

section \<open>Calendar arithmetic\<close>

lemma div_succ:
  fixes a n :: int
  assumes "0 < n"
  shows "(a + 1) div n = a div n + (if (a + 1) mod n = 0 then 1 else 0)"
proof -
  define q where "q = a div n"
  define r where "r = a mod n"
  have a: "a = n * q + r" by (simp add: q_def r_def)
  have r: "0 \<le> r" "r < n" using assms by (simp_all add: r_def)
  have dq: "(n * q + (r + 1)) div n = q + (r + 1) div n"
    using assms by simp
  have mq: "(n * q + (r + 1)) mod n = (r + 1) mod n"
    by simp
  have a1: "a + 1 = n * q + (r + 1)" by (simp add: a)
  have adiv: "a div n = q" by (simp add: q_def)
  show ?thesis
  proof (cases "r + 1 = n")
    case True
    then have "(r + 1) div n = 1" "(r + 1) mod n = 0" using assms by simp_all
    then show ?thesis unfolding a1 dq mq adiv by simp
  next
    case False
    with r have lt: "r + 1 < n" by simp
    have "(r + 1) div n = 0" using r lt by (intro div_pos_pos_trivial) simp_all
    moreover have "(r + 1) mod n = r + 1" using r lt by (intro mod_pos_pos_trivial) simp_all
    ultimately show ?thesis unfolding a1 dq mq adiv using r by simp
  qed
qed

lemma mod_100_of_400: assumes "(y::int) mod 400 = 0" shows "y mod 100 = 0"
proof -
  have "400 dvd y" using assms by (simp add: dvd_eq_mod_eq_0)
  moreover have "(100::int) dvd 400" by simp
  ultimately have "100 dvd y" using dvd_trans by blast
  then show ?thesis by simp
qed

lemma mod_4_of_100: assumes "(y::int) mod 100 = 0" shows "y mod 4 = 0"
proof -
  have "100 dvd y" using assms by (simp add: dvd_eq_mod_eq_0)
  moreover have "(4::int) dvd 100" by simp
  ultimately have "4 dvd y" using dvd_trans by blast
  then show ?thesis by simp
qed

text \<open>The first day of the next year is a year's length later.\<close>

lemma DayFromYear_Suc: "DayFromYear (y + 1) = DayFromYear y + DaysInYear y"
proof -
  have s4: "(y - 1968) mod 4 = y mod 4"
    using mod_mult_self1[of y "- 492" 4] by simp
  have s100: "(y - 1900) mod 100 = y mod 100"
    using mod_mult_self1[of y "- 19" 100] by simp
  have s400: "(y - 1600) mod 400 = y mod 400"
    using mod_mult_self1[of y "- 4" 400] by simp
  have d4: "(y - 1968) div 4 = (y - 1969) div 4 + (if y mod 4 = 0 then 1 else 0)"
    using div_succ[of 4 "y - 1969"] s4 by simp
  have d100: "(y - 1900) div 100 = (y - 1901) div 100 + (if y mod 100 = 0 then 1 else 0)"
    using div_succ[of 100 "y - 1901"] s100 by simp
  have d400: "(y - 1600) div 400 = (y - 1601) div 400 + (if y mod 400 = 0 then 1 else 0)"
    using div_succ[of 400 "y - 1601"] s400 by simp
  have "DayFromYear (y + 1) =
      365 * (y - 1969) + (y - 1968) div 4 - (y - 1900) div 100 + (y - 1600) div 400"
    by (simp add: DayFromYear_def)
  then show ?thesis
    using mod_100_of_400[of y] mod_4_of_100[of y]
    by (auto simp: d4 d100 d400 DayFromYear_def DaysInYear_def)
qed

lemma DaysInYear_bounds: "365 \<le> DaysInYear y" "DaysInYear y \<le> 366"
  by (simp_all add: DaysInYear_def)

lemma DayFromYear_add:
  "365 * int n \<le> DayFromYear (y + int n) - DayFromYear y \<and>
   DayFromYear (y + int n) - DayFromYear y \<le> 366 * int n"
proof (induction n)
  case 0
  then show ?case by simp
next
  case (Suc n)
  have "DayFromYear (y + int (Suc n)) = DayFromYear (y + int n) + DaysInYear (y + int n)"
    using DayFromYear_Suc[of "y + int n"] by (simp add: algebra_simps)
  then show ?case
    using Suc DaysInYear_bounds[of "y + int n"] by simp
qed

lemma DayFromYear_diff:
  assumes "y \<le> y'"
  shows "365 * (y' - y) \<le> DayFromYear y' - DayFromYear y"
    and "DayFromYear y' - DayFromYear y \<le> 366 * (y' - y)"
  using DayFromYear_add[of "nat (y' - y)" y] assms by simp_all

lemma DaysBeforeMonth_bounds:
  assumes "0 \<le> mn" "mn \<le> 11"
  shows "30 * mn - 1 \<le> DaysBeforeMonth y mn" and "DaysBeforeMonth y mn \<le> 30 * mn + 5"
proof -
  from assms have "mn \<in> {0, 1, 2, 3, 4, 5, 6, 7, 8, 9, 10, 11}" by simp arith
  then show "30 * mn - 1 \<le> DaysBeforeMonth y mn" and "DaysBeforeMonth y mn \<le> 30 * mn + 5"
    by (auto simp: DaysBeforeMonth_def)
qed

lemma MonthFromTime_range: "0 \<le> MonthFromTime t" "MonthFromTime t \<le> 11"
  by (simp_all add: MonthFromTime_def Let_def)

lemma DaysBeforeMonth_DateFromTime:
  "DaysBeforeMonth (YearFromTime t) (MonthFromTime t) + DateFromTime t - 1 = DayWithinYear t"
proof -
  have "MonthFromTime t \<in> {0, 1, 2, 3, 4, 5, 6, 7, 8, 9, 10, 11}"
    using MonthFromTime_range[of t] by simp arith
  then show ?thesis
    by (auto simp: DaysBeforeMonth_def DateFromTime_def InLeapYear_def)
qed

lemma MakeDay_roundtrip:
  "MakeDay (YearFromTime t) (MonthFromTime t) (DateFromTime t) = Day t"
proof -
  have "MonthFromTime t div 12 = 0" "MonthFromTime t mod 12 = MonthFromTime t"
    using MonthFromTime_range[of t] by simp_all
  then show ?thesis
    using DaysBeforeMonth_DateFromTime[of t]
    by (simp add: MakeDay_def DayWithinYear_def Let_def)
qed

lemma MakeDay_add_date: "MakeDay y m (d + n) = MakeDay y m d + n"
  by (simp add: MakeDay_def Let_def)

lemma MakeDate_Day: "MakeDate (Day t + n) (TimeWithinDay t) = t + n * msPerDay"
  by (simp add: MakeDate_def Day_def TimeWithinDay_def algebra_simps)

lemma DaysBeforeMonth_leap:
  "DaysBeforeMonth y m - DaysBeforeMonth y' m \<le> 1"
  by (cases "DaysInYear y = 366"; cases "DaysInYear y' = 366") (simp_all add: DaysBeforeMonth_def)

lemma MakeDay_month_step:
  assumes "0 \<le> m" "m \<le> 11" "0 \<le> n"
  shows "30 * n - 6 \<le> MakeDay y (m + n) d - MakeDay y m d"
    and "2 * (MakeDay y (m + n) d - MakeDay y m d) \<le> 61 * n + 24"
proof -
  define dy where "dy = (m + n) div 12"
  define m' where "m' = (m + n) mod 12"
  have split: "12 * dy + m' = m + n" by (simp add: dy_def m'_def)
  have m': "0 \<le> m'" "m' \<le> 11" by (simp_all add: m'_def)
  have dy: "0 \<le> dy" using assms by (simp add: dy_def)
  have m0: "m div 12 = 0" "m mod 12 = m" using assms by simp_all
  have a: "MakeDay y m d = DayFromYear y + DaysBeforeMonth y m + d - 1"
    by (simp add: MakeDay_def m0 Let_def)
  have b: "MakeDay y (m + n) d = DayFromYear (y + dy) + DaysBeforeMonth (y + dy) m' + d - 1"
    by (simp add: MakeDay_def Let_def dy_def m'_def)
  have yd: "365 * dy \<le> DayFromYear (y + dy) - DayFromYear y"
           "DayFromYear (y + dy) - DayFromYear y \<le> 366 * dy"
    using DayFromYear_diff[of y "y + dy"] dy by simp_all
  note bm = DaysBeforeMonth_bounds[OF m', of "y + dy"] DaysBeforeMonth_bounds[OF assms(1,2), of y]
  define delta where "delta = MakeDay y (m + n) d - MakeDay y m d"
  have delta: "delta = (DayFromYear (y + dy) - DayFromYear y)
      + DaysBeforeMonth (y + dy) m' - DaysBeforeMonth y m"
    by (simp add: delta_def a b)
  have "30 * n - 6 \<le> delta"
    using delta yd(1) bm(1,4) split dy by linarith
  moreover have "2 * delta \<le> 61 * n + 24"
    using delta yd(2) bm(2,3) split assms(2) m'(1) by linarith
  ultimately show "30 * n - 6 \<le> MakeDay y (m + n) d - MakeDay y m d"
    and "2 * (MakeDay y (m + n) d - MakeDay y m d) \<le> 61 * n + 24"
    by (simp_all add: delta_def)
qed

lemma MakeDay_year_step:
  assumes "0 \<le> m" "m \<le> 11" "0 \<le> n"
  shows "365 * n - 1 \<le> MakeDay (y + n) m d - MakeDay y m d"
    and "MakeDay (y + n) m d - MakeDay y m d \<le> 366 * n + 1"
proof -
  have m0: "m div 12 = 0" "m mod 12 = m" using assms by simp_all
  have a: "MakeDay y m d = DayFromYear y + DaysBeforeMonth y m + d - 1"
          "MakeDay (y + n) m d = DayFromYear (y + n) + DaysBeforeMonth (y + n) m + d - 1"
    by (simp_all add: MakeDay_def m0 Let_def)
  have yd: "365 * n \<le> DayFromYear (y + n) - DayFromYear y"
           "DayFromYear (y + n) - DayFromYear y \<le> 366 * n"
    using DayFromYear_diff[of y "y + n"] assms(3) by simp_all
  show "365 * n - 1 \<le> MakeDay (y + n) m d - MakeDay y m d"
    unfolding a using yd DaysBeforeMonth_leap[of y m "y + n"] by linarith
  show "MakeDay (y + n) m d - MakeDay y m d \<le> 366 * n + 1"
    unfolding a using yd DaysBeforeMonth_leap[of "y + n" m y] by linarith
qed

section \<open>The setters and the steps of a cadence\<close>

text \<open>The setters on a valid date, called as the module calls them.\<close>

lemma setDate_add:
  "setDate tz (Some t) (n_add (getDate tz (Some t)) (Some n)) = add_days tz n t"
proof -
  have "MakeDate (MakeDay (YearFromTime (LocalTime tz t)) (MonthFromTime (LocalTime tz t))
            (DateFromTime (LocalTime tz t) + n)) (TimeWithinDay (LocalTime tz t))
        = LocalTime tz t + n * msPerDay"
    by (simp add: MakeDay_add_date MakeDay_roundtrip MakeDate_Day)
  then show ?thesis
    by (simp add: setDate_def getDate_def n_add_def add_days_def Let_def)
qed

lemma setMonth_add:
  "setMonth tz (Some t) (n_add (getMonth tz (Some t)) (Some n)) = add_months tz n t"
  by (simp add: setMonth_def getMonth_def n_add_def add_months_def Let_def)

lemma setFullYear_add:
  "setFullYear tz (Some t) (n_add (getFullYear tz (Some t)) (Some n)) = add_years tz n t"
  by (simp add: setFullYear_def getFullYear_def n_add_def add_years_def Let_def)

text \<open>A step of months or years moves the local time by whole days.\<close>

lemma add_months_delta:
  "add_months tz n t =
     TimeClip (UTC tz (LocalTime tz t
       + (MakeDay (YearFromTime (LocalTime tz t)) (MonthFromTime (LocalTime tz t) + n)
            (DateFromTime (LocalTime tz t))
          - MakeDay (YearFromTime (LocalTime tz t)) (MonthFromTime (LocalTime tz t))
            (DateFromTime (LocalTime tz t))) * msPerDay))"
proof -
  define lt where "lt = LocalTime tz t"
  have "MakeDate (MakeDay (YearFromTime lt) (MonthFromTime lt + n) (DateFromTime lt))
          (TimeWithinDay lt)
        = lt + (MakeDay (YearFromTime lt) (MonthFromTime lt + n) (DateFromTime lt) - Day lt)
             * msPerDay"
    using MakeDate_Day[of lt "MakeDay (YearFromTime lt) (MonthFromTime lt + n) (DateFromTime lt)
                      - Day lt"] by simp
  then show ?thesis
    by (simp add: add_months_def MakeDay_roundtrip Let_def lt_def)
qed

lemma add_years_delta:
  "add_years tz n t =
     TimeClip (UTC tz (LocalTime tz t
       + (MakeDay (YearFromTime (LocalTime tz t) + n) (MonthFromTime (LocalTime tz t))
            (DateFromTime (LocalTime tz t))
          - MakeDay (YearFromTime (LocalTime tz t)) (MonthFromTime (LocalTime tz t))
            (DateFromTime (LocalTime tz t))) * msPerDay))"
proof -
  define lt where "lt = LocalTime tz t"
  have "MakeDate (MakeDay (YearFromTime lt + n) (MonthFromTime lt) (DateFromTime lt))
          (TimeWithinDay lt)
        = lt + (MakeDay (YearFromTime lt + n) (MonthFromTime lt) (DateFromTime lt) - Day lt)
             * msPerDay"
    using MakeDate_Day[of lt "MakeDay (YearFromTime lt + n) (MonthFromTime lt) (DateFromTime lt)
                      - Day lt"] by simp
  then show ?thesis
    by (simp add: add_years_def MakeDay_roundtrip Let_def lt_def)
qed

text \<open>
  A step of \<open>k\<close> periods moves the local time by a whole number of days, which is the
  fixed day count of the periods up to the bounds below.
\<close>

lemma advance_delta:
  assumes "0 \<le> k"
  shows "\<exists>delta. advance tz c k t = TimeClip (UTC tz (LocalTime tz t + delta * msPerDay)) \<and>
           cadence_days c * k - cadence_short c \<le> delta \<and>
           2 * delta \<le> 2 * (cadence_days c * k) + cadence_long c * k + 24"
proof (cases c)
  case Weekly
  then show ?thesis using assms by (auto simp: add_days_def intro!: exI[of _ "7 * k"])
next
  case BiWeekly
  then show ?thesis using assms by (auto simp: add_days_def intro!: exI[of _ "14 * k"])
next
  case Monthly
  show ?thesis
    using MakeDay_month_step[OF MonthFromTime_range[of "LocalTime tz t"] assms,
            of "YearFromTime (LocalTime tz t)" "DateFromTime (LocalTime tz t)"]
    by (auto simp: Monthly add_months_delta)
next
  case Quarterly
  have "0 \<le> 3 * k" using assms by simp
  from MakeDay_month_step[OF MonthFromTime_range[of "LocalTime tz t"] this,
            of "YearFromTime (LocalTime tz t)" "DateFromTime (LocalTime tz t)"]
  show ?thesis
    by (auto simp: Quarterly add_months_delta)
next
  case SemiAnnually
  have "0 \<le> 6 * k" using assms by simp
  from MakeDay_month_step[OF MonthFromTime_range[of "LocalTime tz t"] this,
            of "YearFromTime (LocalTime tz t)" "DateFromTime (LocalTime tz t)"]
  show ?thesis
    by (auto simp: SemiAnnually add_months_delta)
next
  case Yearly
  show ?thesis
    using MakeDay_year_step[OF MonthFromTime_range[of "LocalTime tz t"] assms,
            of "YearFromTime (LocalTime tz t)" "DateFromTime (LocalTime tz t)"]
    by (auto simp: Yearly add_years_delta)
qed

text \<open>
  Going to local time, moving and coming back changes a time by the move and by the
  difference of two offsets of the zone.
\<close>

lemma UTC_LocalTime_shift:
  assumes "\<And>u b. \<bar>tz u b\<bar> \<le> 86400000"
  shows "\<exists>eps. UTC tz (LocalTime tz t + x) = t + x + eps \<and> \<bar>eps\<bar> \<le> 172800000"
proof -
  define eps where "eps = tz t True - tz (t + tz t True + x) False"
  have "UTC tz (LocalTime tz t + x) = t + x + eps"
    by (simp add: UTC_def LocalTime_def eps_def)
  moreover have "\<bar>eps\<bar> \<le> 172800000"
    using assms[of t True] assms[of "t + tz t True + x" False] unfolding eps_def by linarith
  ultimately show ?thesis by blast
qed

lemma advance_shift:
  assumes "0 \<le> k" and "\<And>u b. \<bar>tz u b\<bar> \<le> 86400000"
  shows "\<exists>delta eps. advance tz c k t = TimeClip (t + delta * msPerDay + eps) \<and>
           \<bar>eps\<bar> \<le> 172800000 \<and>
           cadence_days c * k - cadence_short c \<le> delta \<and>
           2 * delta \<le> 2 * (cadence_days c * k) + cadence_long c * k + 24"
proof -
  obtain delta where d: "advance tz c k t = TimeClip (UTC tz (LocalTime tz t + delta * msPerDay))"
    "cadence_days c * k - cadence_short c \<le> delta"
    "2 * delta \<le> 2 * (cadence_days c * k) + cadence_long c * k + 24"
    using advance_delta[OF assms(1)] by blast
  obtain eps where "UTC tz (LocalTime tz t + delta * msPerDay) = t + delta * msPerDay + eps"
    "\<bar>eps\<bar> \<le> 172800000"
    using UTC_LocalTime_shift[of tz t "delta * msPerDay"] assms(2) by blast
  with d show ?thesis by auto
qed

section \<open>The code and the projection of the specification\<close>

lemma n_arith_Some [simp]:
  "n_add (Some a) (Some b) = Some (a + b)"
  "n_sub (Some a) (Some b) = Some (a - b)"
  "n_mul (Some a) (Some b) = Some (a * b)"
  "n_floor_div (Some a) n = Some (a div n)"
  by (simp_all add: n_add_def n_sub_def n_mul_def n_floor_div_def)

lemma date_cmp_Some [simp]:
  "date_gt (Some a) (Some b) = (b < a)"
  "date_le (Some a) (Some b) = (a \<le> b)"
  "date_ge (Some a) (Some b) = (b \<le> a)"
  "date_le None d = False"
  "date_ge None d = False"
  by (simp_all add: date_gt_def date_le_def date_ge_def)

lemma cadence_of_cases:
  assumes "cadence_of d = Some c"
  shows "(c = Weekly \<and> d = ''weekly'') \<or> (c = BiWeekly \<and> d = ''bi-weekly'') \<or>
         (c = Monthly \<and> d = ''monthly'') \<or> (c = Quarterly \<and> d = ''quarterly'') \<or>
         (c = SemiAnnually \<and> d = ''semi-annually'') \<or> (c = Yearly \<and> d = ''yearly'')"
  using assms by (auto simp: cadence_of_def split: if_splits)

lemma projectRenewal_two_pass:
  "projectRenewal tz now c start =
     (if now < start then Some start
      else two_pass (advance tz c) now start
             ((now - start) div msPerDay div cadence_days c + 1))"
  by (simp add: projectRenewal_def two_pass_def Let_def)

lemma calculateNextRenewalDate_project:
  assumes c: "cadence_of (recurringDuration sub) = Some c"
    and s: "startDate sub = Some start"
  shows "calculateNextRenewalDate tz now sub = projectRenewal tz now c start"
proof (cases "now < start")
  case True
  then show ?thesis
    by (simp add: calculateNextRenewalDate_def projectRenewal_def s)
next
  case False
  define k where "k = (now - start) div msPerDay div cadence_days c + 1"
  have pr: "projectRenewal tz now c start = two_pass (advance tz c) now start k"
    using False by (simp add: projectRenewal_two_pass k_def)
  from cadence_of_cases[OF c] show ?thesis
  proof (elim disjE conjE)
    assume "c = Weekly" "recurringDuration sub = ''weekly''"
    then show ?thesis
      unfolding pr using False
      by (simp add: calculateNextRenewalDate_def s getTime_def getDaysInDuration_def Let_def
            setDate_add two_pass_def k_def mult.commute split: option.splits)
  next
    assume "c = BiWeekly" "recurringDuration sub = ''bi-weekly''"
    then show ?thesis
      unfolding pr using False
      by (simp add: calculateNextRenewalDate_def s getTime_def getDaysInDuration_def Let_def
            setDate_add two_pass_def k_def mult.commute split: option.splits)
  next
    assume "c = Monthly" "recurringDuration sub = ''monthly''"
    then show ?thesis
      unfolding pr using False
      by (simp add: calculateNextRenewalDate_def s getTime_def getDaysInDuration_def Let_def
            setMonth_add two_pass_def k_def mult.commute split: option.splits)
  next
    assume "c = Quarterly" "recurringDuration sub = ''quarterly''"
    then show ?thesis
      unfolding pr using False
      by (simp add: calculateNextRenewalDate_def s getTime_def getDaysInDuration_def Let_def
            setMonth_add two_pass_def k_def mult.commute split: option.splits)
  next
    assume "c = SemiAnnually" "recurringDuration sub = ''semi-annually''"
    then show ?thesis
      unfolding pr using False
      by (simp add: calculateNextRenewalDate_def s getTime_def getDaysInDuration_def Let_def
            setMonth_add two_pass_def k_def mult.commute split: option.splits)
  next
    assume "c = Yearly" "recurringDuration sub = ''yearly''"
    then show ?thesis
      unfolding pr using False
      by (simp add: calculateNextRenewalDate_def s getTime_def getDaysInDuration_def Let_def
            setFullYear_add two_pass_def k_def mult.commute split: option.splits)
  qed
qed

lemma TimeClip_Some: "- 8640000000000000 \<le> t \<Longrightarrow> t \<le> 8640000000000000 \<Longrightarrow> TimeClip t = Some t"
  by (simp add: TimeClip_def)

lemma div_bounds:
  fixes a n :: int
  assumes "0 < n"
  shows "n * (a div n) \<le> a" and "a < n * (a div n) + n"
proof -
  have "a = n * (a div n) + a mod n" by simp
  moreover have "0 \<le> a mod n" "a mod n < n" using assms by simp_all
  ultimately show "n * (a div n) \<le> a" and "a < n * (a div n) + n" by linarith+
qed

text \<open>
  The arithmetic of the two passes: \<open>X\<close> is the table's day count of the projected
  periods, \<open>d1\<close> and \<open>d2\<close> the days the two steps move the local date, \<open>e1\<close> and
  \<open>e2\<close> what the offsets of the zone add.
\<close>

lemma first_pass_valid:
  fixes now s days X Y d1 P e1 :: int
  assumes "86400000 * days \<le> now - s" "X - P \<le> days" "P \<le> X" "P \<le> 365" "7 \<le> P"
    and "X - sh \<le> d1" "2 * d1 \<le> 2 * X + Y + 24" "30 * Y \<le> X" "2 * sh \<le> P" "0 \<le> sh"
    and "- 8640000000000000 \<le> s" "now \<le> 8000000000000000" "\<bar>e1\<bar> \<le> 172800000"
  shows "- 8640000000000000 \<le> s + d1 * 86400000 + e1"
    and "s + d1 * 86400000 + e1 \<le> 8640000000000000"
  using assms by linarith+

lemma second_pass_future:
  fixes now s days X d1 d2 P e1 e2 :: int
  assumes "now - s < 86400000 * days + 86400000" "days < X"
    and "X - sh \<le> d1" "P - sh \<le> d2" "2 * sh + 4 \<le> P"
    and "\<bar>e1\<bar> \<le> 172800000" "\<bar>e2\<bar> \<le> 172800000"
  shows "now < s + d1 * 86400000 + e1 + d2 * 86400000 + e2"
  using assms by linarith

lemma second_pass_valid:
  fixes now p d2 P L e2 :: int
  assumes "p \<le> now" "now \<le> 8000000000000000" "2 * d2 \<le> 2 * P + L + 24" "30 * L \<le> P" "P \<le> 365"
    "now < p + d2 * 86400000 + e2" "- 8640000000000000 \<le> p" "\<bar>e2\<bar> \<le> 172800000"
  shows "- 8640000000000000 \<le> p + d2 * 86400000 + e2"
    and "p + d2 * 86400000 + e2 \<le> 8640000000000000"
  using assms by linarith+

lemma cadence_facts:
  "7 \<le> cadence_days c" "cadence_days c \<le> 365" "2 * cadence_short c \<le> cadence_days c"
  "0 \<le> cadence_short c" "30 * cadence_long c \<le> cadence_days c" "0 \<le> cadence_long c"
  "2 * cadence_short c + 4 \<le> cadence_days c"
  by (cases c; simp)+

text \<open>
  In a zone whose offsets are at most a day, the projection from a valid start date
  that is not after the clock is a valid date after the clock.
\<close>

lemma projectRenewal_future:
  assumes "- 8640000000000000 \<le> start" "start \<le> now" "now \<le> 8000000000000000"
    and tz: "\<And>u b. \<bar>tz u b\<bar> \<le> 86400000"
  shows "\<exists>r. projectRenewal tz now c start = Some r \<and> now < r"
proof -
  define P where "P = cadence_days c"
  define days where "days = (now - start) div msPerDay"
  define cyc where "cyc = days div P"
  define k where "k = cyc + 1"
  define X where "X = P * k"
  define Y where "Y = cadence_long c * k"
  note cf = cadence_facts[of c, folded P_def]
  have P: "0 < P" using cf(1) by simp
  have d: "86400000 * days \<le> now - start" "now - start < 86400000 * days + 86400000"
    using div_bounds[of 86400000 "now - start"] by (simp_all add: days_def msPerDay_def)
  have days0: "0 \<le> days"
    using assms(2) by (simp add: days_def msPerDay_def pos_imp_zdiv_nonneg_iff)
  have cyc0: "0 \<le> cyc"
    using days0 P by (simp add: cyc_def pos_imp_zdiv_nonneg_iff)
  have k: "1 \<le> k" "0 \<le> k" using cyc0 by (simp_all add: k_def)
  have X: "X = P * cyc + P" by (simp add: X_def k_def algebra_simps)
  have c: "X - P \<le> days" "days < X"
    using div_bounds[OF P, of days] by (simp_all add: X cyc_def)
  have PX: "P \<le> X"
    using cyc0 P by (simp add: X)
  have Y: "30 * Y \<le> X"
  proof -
    have "(30 * cadence_long c) * k \<le> P * k"
      using cf(5) k(2) by (rule mult_right_mono)
    then show ?thesis by (simp add: X_def Y_def algebra_simps)
  qed
  obtain d1 e1 where d1: "advance tz c k start = TimeClip (start + d1 * msPerDay + e1)"
    "\<bar>e1\<bar> \<le> 172800000" "X - cadence_short c \<le> d1" "2 * d1 \<le> 2 * X + Y + 24"
    using advance_shift[where tz = tz and c = c and t = start, OF k(2) tz] by (auto simp: X_def Y_def P_def)
  define p1 where "p1 = start + d1 * 86400000 + e1"
  have v1: "- 8640000000000000 \<le> p1" "p1 \<le> 8640000000000000"
    unfolding p1_def
    using first_pass_valid[OF d(1) c(1) PX cf(2,1) d1(3,4) Y cf(3,4) assms(1,3) d1(2)]
    by simp_all
  have a1: "advance tz c k start = Some p1"
    using d1(1) v1 by (simp add: p1_def msPerDay_def TimeClip_Some)
  have pr: "projectRenewal tz now c start = two_pass (advance tz c) now start k"
    using assms(2) by (simp add: projectRenewal_two_pass k_def cyc_def days_def P_def)
  show ?thesis
  proof (cases "p1 \<le> now")
    case False
    then show ?thesis by (simp add: pr two_pass_def a1)
  next
    case True
    obtain d2 e2 where d2: "advance tz c 1 p1 = TimeClip (p1 + d2 * msPerDay + e2)"
      "\<bar>e2\<bar> \<le> 172800000" "P - cadence_short c \<le> d2" "2 * d2 \<le> 2 * P + cadence_long c + 24"
      using advance_shift[where k = 1 and tz = tz and c = c and t = p1] tz by (auto simp: P_def)
    define p2 where "p2 = p1 + d2 * 86400000 + e2"
    have fut: "now < p2"
      unfolding p2_def p1_def
      using second_pass_future[OF d(2) c(2) d1(3) d2(3) cf(7) d1(2) d2(2)] .
    have v2: "- 8640000000000000 \<le> p2" "p2 \<le> 8640000000000000"
      unfolding p2_def
      using second_pass_valid[OF True assms(3) d2(4) cf(5,2) fut[unfolded p2_def] v1(1) d2(2)]
      by simp_all
    have "advance tz c 1 p1 = Some p2"
      using d2(1) v2 by (simp add: p2_def msPerDay_def TimeClip_Some)
    then show ?thesis
      using True fut by (simp add: pr two_pass_def a1)
  qed
qed

section \<open>The year of a time\<close>

lemma DayFromYear_lower:
  "400 * DayFromYear (1970 + z) \<ge> 146097 * z - 400 * 2"
proof -
  define q4 where "q4 = (z + 1) div 4"
  define q100 where "q100 = (z + 69) div 100"
  define q400 where "q400 = (z + 369) div 400"
  have "DayFromYear (1970 + z) = 365 * z + q4 - q100 + q400"
    by (simp add: DayFromYear_def q4_def q100_def q400_def add.commute)
  moreover have "z + 1 < 4 * q4 + 4" "100 * q100 \<le> z + 69" "z + 369 < 400 * q400 + 400"
    using div_bounds[of 4 "z + 1"] div_bounds[of 100 "z + 69"] div_bounds[of 400 "z + 369"]
    by (simp_all add: q4_def q100_def q400_def)
  ultimately show ?thesis by linarith
qed

lemma DayFromYear_upper:
  "400 * DayFromYear (1970 + z) \<le> 146097 * z + 400 * 2"
proof -
  define q4 where "q4 = (z + 1) div 4"
  define q100 where "q100 = (z + 69) div 100"
  define q400 where "q400 = (z + 369) div 400"
  have "DayFromYear (1970 + z) = 365 * z + q4 - q100 + q400"
    by (simp add: DayFromYear_def q4_def q100_def q400_def add.commute)
  moreover have "4 * q4 \<le> z + 1" "z + 69 < 100 * q100 + 100" "400 * q400 \<le> z + 369"
    using div_bounds[of 4 "z + 1"] div_bounds[of 100 "z + 69"] div_bounds[of 400 "z + 369"]
    by (simp_all add: q4_def q100_def q400_def)
  ultimately show ?thesis by linarith
qed

text \<open>
  The year computed for a time is the one the specification of the language defines:
  its first day is not after the time and the first day of the next year is.
\<close>

lemma YearFromTime_bounds:
  "DayFromYear (YearFromTime t) \<le> Day t \<and> Day t < DayFromYear (YearFromTime t + 1)"
proof -
  define d where "d = Day t"
  define z where "z = (400 * d) div 146097"
  have z: "146097 * z \<le> 400 * d" "400 * d < 146097 * z + 146097"
    using div_bounds[of 146097 "400 * d"] by (simp_all add: z_def)
  have lo: "DayFromYear (1970 + z - 1) \<le> d"
    using DayFromYear_upper[of "z - 1"] z(1) by (simp add: algebra_simps)
  have hi: "d < DayFromYear (1970 + z + 2)"
    using DayFromYear_lower[of "z + 2"] z(2) by (simp add: algebra_simps)
  have y: "YearFromTime t =
      (if d < DayFromYear (1970 + z) then 1970 + z - 1
       else if DayFromYear (1970 + z + 1) \<le> d then 1970 + z + 1 else 1970 + z)"
    by (simp add: YearFromTime_def d_def z_def Let_def)
  show ?thesis
    unfolding y d_def[symmetric] using lo hi by (simp add: algebra_simps)
qed

section \<open>Example dates\<close>

lemmas date_eval = Day_def TimeWithinDay_def DaysInYear_def DayFromYear_def YearFromTime_def
  InLeapYear_def DayWithinYear_def MonthFromTime_def DateFromTime_def DaysBeforeMonth_def
  msPerDay_def Let_def

lemma utc_eval: "LocalTime utc t = t" "UTC utc t = t"
  by (simp_all add: LocalTime_def UTC_def utc_def)

lemma add_months_eval:
  assumes "LocalTime tz t = lt" "YearFromTime lt = y" "MonthFromTime lt = m"
    "DateFromTime lt = d" "TimeWithinDay lt = w"
    "MakeDay y (m + n) d = day" "TimeClip (UTC tz (day * 86400000 + w)) = r"
  shows "add_months tz n t = r"
  using assms by (simp add: add_months_def MakeDate_def msPerDay_def)

lemma MakeDay_eval:
  assumes "month div 12 = dy" "month mod 12 = mn" "DayFromYear (year + dy) = a"
    "DaysBeforeMonth (year + dy) mn = b"
  shows "MakeDay year month date = a + b + date - 1"
  using assms by (simp add: MakeDay_def Let_def)

text \<open>1 February 2023, 1 March 2023 and 30 October 2026, in UTC.\<close>

lemma fields_feb1:
  "YearFromTime 1675209600000 = 2023" "MonthFromTime 1675209600000 = 1"
  "DateFromTime 1675209600000 = 1" "TimeWithinDay 1675209600000 = 0"
  by (simp_all add: date_eval)

lemma fields_mar1:
  "YearFromTime 1677628800000 = 2023" "MonthFromTime 1677628800000 = 2"
  "DateFromTime 1677628800000 = 1" "TimeWithinDay 1677628800000 = 0"
  by (simp_all add: date_eval)

lemma fields_oct30:
  "YearFromTime 1793354400000 = 2026" "MonthFromTime 1793354400000 = 9"
  "DateFromTime 1793354400000 = 30" "TimeWithinDay 1793354400000 = 36000000"
  by (simp_all add: date_eval)

lemma fields_nov3:
  "YearFromTime 1793707200000 = 2026" "MonthFromTime 1793707200000 = 10"
  by (simp_all add: date_eval)

lemma MakeDay_2023:
  "MakeDay 2023 2 1 = 19417" "MakeDay 2023 3 1 = 19448"
  by (simp_all add: MakeDay_eval[where dy = 0] DayFromYear_def DaysBeforeMonth_def DaysInYear_def)

lemma MakeDay_2026:
  "MakeDay 2026 10 30 = 20787" "MakeDay 2026 10 1 = 20758" "MakeDay 2026 11 0 = 20787"
  by (simp_all add: MakeDay_eval[where dy = 0] DayFromYear_def DaysBeforeMonth_def DaysInYear_def)

lemma add_months_feb1: "add_months utc 1 1675209600000 = Some 1677628800000"
  by (rule add_months_eval[where lt = 1675209600000 and y = 2023 and m = 1 and d = 1
        and w = 0 and day = 19417])
     (simp_all add: utc_eval fields_feb1 MakeDay_2023 TimeClip_def)

lemma add_months_mar1: "add_months utc 1 1677628800000 = Some 1680307200000"
  by (rule add_months_eval[where lt = 1677628800000 and y = 2023 and m = 2 and d = 1
        and w = 0 and day = 19448])
     (simp_all add: utc_eval fields_mar1 MakeDay_2023 TimeClip_def)

lemma add_months_oct30: "add_months utc 1 1793354400000 = Some 1796032800000"
  by (rule add_months_eval[where lt = 1793354400000 and y = 2026 and m = 9 and d = 30
        and w = 36000000 and day = 20787])
     (simp_all add: utc_eval fields_oct30 MakeDay_2026 TimeClip_def)

lemma project_feb1:
  "projectRenewal utc 1677672000000 Monthly 1675209600000 = Some 1680307200000"
  by (simp add: projectRenewal_def msPerDay_def add_months_feb1 add_months_mar1)

lemma project_oct30:
  "projectRenewal utc 1793707200000 Monthly 1793354400000 = Some 1796032800000"
  by (simp add: projectRenewal_def msPerDay_def add_months_oct30)

text \<open>
  A week from 28 October 2026 at 10:00 in the eastern zone, 14:00 UTC, across the end
  of daylight saving time: 4 November at 10:00 local time, which is 15:00 UTC, an hour
  more than seven days later.
\<close>

lemma add_days_eastern: "add_days eastern 7 1793196000000 = Some 1793804400000"
  by (simp add: add_days_def LocalTime_def UTC_def eastern_def msPerDay_def TimeClip_def)

lemma project_eastern:
  "projectRenewal eastern 1793354400000 Weekly 1793196000000 = Some 1793804400000"
  by (simp add: projectRenewal_def msPerDay_def add_days_eastern)

lemma zone_bounds:
  "\<forall>u b. \<bar>utc u b\<bar> \<le> 86400000" "\<forall>u b. \<bar>eastern u b\<bar> \<le> 86400000"
  by (simp_all add: utc_def eastern_def)

lemma renewal_oct30:
  "calculateNextRenewalDate utc 1793707200000
     (example_sub 12 ''USD'' ''monthly'' 1793354400000 None) = Some 1796032800000"
  using calculateNextRenewalDate_project
          [where sub = "example_sub 12 ''USD'' ''monthly'' 1793354400000 None" and c = Monthly
             and start = 1793354400000 and tz = utc and now = 1793707200000]
  by (simp add: example_sub_def cadence_of_def project_oct30)

lemma startOfMonth_nov:
  "newDate utc (getFullYear utc (Some 1793707200000)) (getMonth utc (Some 1793707200000))
     (Some 1) = Some 1793491200000"
  by (simp add: newDate_def getFullYear_def getMonth_def utc_eval fields_nov3
        MakeDay_2026 MakeDate_def msPerDay_def TimeClip_def)

lemma endOfMonth_nov:
  "newDate utc (getFullYear utc (Some 1793707200000))
     (n_add (getMonth utc (Some 1793707200000)) (Some 1)) (Some 0) = Some 1795996800000"
  by (simp add: newDate_def getFullYear_def getMonth_def utc_eval fields_nov3
        MakeDay_2026 MakeDate_def msPerDay_def TimeClip_def)

lemma renewals_nov:
  "getRenewalsThisMonth utc 1793707200000
     [example_sub 12 ''USD'' ''monthly'' 1793354400000 None] = []"
  unfolding getRenewalsThisMonth_def startOfMonth_nov endOfMonth_nov
  by (simp add: renewal_oct30 sort_by_def)

section \<open>The mapping of a grouping\<close>

lemma reduce_groups_grouped:
  "\<forall>s \<in> set subs. key s \<notin> set object_prototype_keys \<Longrightarrow>
   reduce_groups key subs acc = Inr (grouped key subs acc)"
proof (induction subs arbitrary: acc)
  case Nil
  have "grouped key [] acc = acc"
    by (intro ext) (simp add: grouped_def split: option.splits)
  then show ?case by simp
next
  case (Cons sub subs)
  obtain acc' where push: "group_push (key sub) sub acc = Inr acc'"
    and acc': "acc' = acc(key sub \<mapsto> (case acc (key sub) of Some arr \<Rightarrow> arr @ [sub] | None \<Rightarrow> [sub]))"
    using Cons.prems by (auto simp: group_push_def split: option.splits)
  have "grouped key subs acc' = grouped key (sub # subs) acc"
    by (intro ext) (auto simp: grouped_def acc' split: option.splits)
  then show ?case
    using Cons push by simp
qed


text \<open>
  A key that objects inherit stops the reduction: no own property is ever stored under
  such a key, so the first subscription that has one raises the error.
\<close>

lemma reduce_groups_error:
  assumes "\<forall>k \<in> set object_prototype_keys. acc k = None"
    and "\<exists>s \<in> set subs. key s \<in> set object_prototype_keys"
  shows "reduce_groups key subs acc = Inl TypeError"
  using assms
proof (induction subs arbitrary: acc)
  case Nil
  then show ?case by simp
next
  case (Cons sub subs)
  show ?case
  proof (cases "key sub \<in> set object_prototype_keys")
    case True
    then have "group_push (key sub) sub acc = Inl TypeError"
      using Cons.prems(1) by (simp add: group_push_def)
    then show ?thesis by simp
  next
    case False
    define acc' where
      "acc' = acc(key sub \<mapsto> (case acc (key sub) of Some arr \<Rightarrow> arr @ [sub] | None \<Rightarrow> [sub]))"
    have push: "group_push (key sub) sub acc = Inr acc'"
      using False by (simp add: group_push_def acc'_def split: option.splits)
    have acc': "\<forall>k. k \<noteq> key sub \<longrightarrow> acc' k = acc k"
      by (simp add: acc'_def)
    have "\<forall>k \<in> set object_prototype_keys. acc' k = None"
      using acc' Cons.prems(1) False by metis
    moreover have "\<exists>s \<in> set subs. key s \<in> set object_prototype_keys"
      using Cons.prems(2) False by auto
    ultimately have "reduce_groups key subs acc' = Inl TypeError"
      by (rule Cons.IH)
    then show ?thesis using push by simp
  qed
qed

section \<open>The next renewal date\<close>

text \<open>
  C1. For a subscription with a valid start date, \<^verbatim>\<open>calculateNextRenewalDate\<close> returns
  the start date itself when it is after \<open>now\<close>. Otherwise, for each of the six
  durations, in every time zone, and at a clock less than \<open>2 ^ 53\<close> milliseconds after
  the start, where the difference of the two times is exact, it is the two-pass
  projection of section 4.3: \<open>cyclesPassed\<close> is the whole days since the start divided
  by the table's days of the duration, the start is moved \<open>cyclesPassed + 1\<close> periods
  forward by the local calendar (days for weekly and bi-weekly, months for monthly,
  quarterly and semi-annually, years for yearly), and a date that is still not after
  \<open>now\<close> is moved one period more, once.
\<close>

theorem calculateNextRenewalDate_two_pass:
  "(startDate sub = Some start \<and> now < start \<longrightarrow>
      calculateNextRenewalDate tz now sub = Some start) \<and>
   (startDate sub = Some start \<and> cadence_of (recurringDuration sub) = Some c \<and>
    \<bar>start\<bar> \<le> 8640000000000000 \<and> \<bar>now\<bar> \<le> 8640000000000000 \<and>
    now - start < 9007199254740992 \<longrightarrow>
      calculateNextRenewalDate tz now sub = projectRenewal tz now c start)"
proof (intro conjI impI)
  assume "startDate sub = Some start \<and> now < start"
  then show "calculateNextRenewalDate tz now sub = Some start"
    by (simp add: calculateNextRenewalDate_def)
next
  assume "startDate sub = Some start \<and> cadence_of (recurringDuration sub) = Some c \<and>
    \<bar>start\<bar> \<le> 8640000000000000 \<and> \<bar>now\<bar> \<le> 8640000000000000 \<and>
    now - start < 9007199254740992"
  then show "calculateNextRenewalDate tz now sub = projectRenewal tz now c start"
    by (simp add: calculateNextRenewalDate_project)
qed

text \<open>
  A monthly subscription started on 1 February 2023, in UTC, seen at noon of 1 March:
  28 days have passed, so no cycle of 30 days; one month forward is 1 March at midnight,
  which is not after the clock, and the correction gives 1 April. Seen before its start,
  the start date is returned. A weekly subscription started on 28 October 2026 at 10:00
  in the eastern zone, seen two days later, renews on 4 November at 10:00 local time,
  after the end of daylight saving time: seven days and one hour after the start.
\<close>

theorem calculateNextRenewalDate_two_pass_witness:
  "startDate (example_sub 12 ''USD'' ''monthly'' 1675209600000 None) = Some 1675209600000 \<and>
   cadence_of (recurringDuration (example_sub 12 ''USD'' ''monthly'' 1675209600000 None))
     = Some Monthly \<and>
   \<bar>1675209600000 :: int\<bar> \<le> 8640000000000000 \<and> \<bar>1677672000000 :: int\<bar> \<le> 8640000000000000 \<and>
   (1677672000000 :: int) - 1675209600000 < 9007199254740992 \<and>
   calculateNextRenewalDate utc 1677672000000
     (example_sub 12 ''USD'' ''monthly'' 1675209600000 None) = Some 1680307200000 \<and>
   (1675209599999 :: int) < 1675209600000 \<and>
   calculateNextRenewalDate utc 1675209599999
     (example_sub 12 ''USD'' ''monthly'' 1675209600000 None) = Some 1675209600000 \<and>
   startDate (example_sub 12 ''USD'' ''weekly'' 1793196000000 None) = Some 1793196000000 \<and>
   cadence_of (recurringDuration (example_sub 12 ''USD'' ''weekly'' 1793196000000 None))
     = Some Weekly \<and>
   \<bar>1793196000000 :: int\<bar> \<le> 8640000000000000 \<and> \<bar>1793354400000 :: int\<bar> \<le> 8640000000000000 \<and>
   (1793354400000 :: int) - 1793196000000 < 9007199254740992 \<and>
   calculateNextRenewalDate eastern 1793354400000
     (example_sub 12 ''USD'' ''weekly'' 1793196000000 None) = Some 1793804400000"
  using calculateNextRenewalDate_two_pass
          [where sub = "example_sub 12 ''USD'' ''monthly'' 1675209600000 None"
             and start = 1675209600000 and now = 1677672000000 and tz = utc and c = Monthly]
        calculateNextRenewalDate_two_pass
          [where sub = "example_sub 12 ''USD'' ''monthly'' 1675209600000 None"
             and start = 1675209600000 and now = 1675209599999 and tz = utc and c = Monthly]
        calculateNextRenewalDate_two_pass
          [where sub = "example_sub 12 ''USD'' ''weekly'' 1793196000000 None"
             and start = 1793196000000 and now = 1793354400000 and tz = eastern and c = Weekly]
  by (simp add: example_sub_def cadence_of_def project_feb1 project_eastern)

text \<open>
  C10. For a subscription with one of the six durations and a valid start date that is
  not after \<open>now\<close>, \<^verbatim>\<open>calculateNextRenewalDate\<close> returns a valid date strictly after
  \<open>now\<close>: one correction is enough, for every duration. The clock is at most
  \<open>3 * 10 ^ 14\<close> milliseconds (the year 11476), where its difference from every valid
  start date is exact and the dates a period ahead are valid ones, and the zone is any
  whose offsets from UTC are at most a day.
\<close>

theorem calculateNextRenewalDate_future:
  assumes "cadence_of (recurringDuration sub) = Some c"
    and "startDate sub = Some start"
    and "- 8640000000000000 \<le> start" and "start \<le> now" and "now \<le> 300000000000000"
    and "\<forall>u b. \<bar>tz u b\<bar> \<le> 86400000"
  shows "\<exists>r. calculateNextRenewalDate tz now sub = Some r \<and> now < r"
proof -
  have "now \<le> 8000000000000000"
    using assms(5) by simp
  moreover have "\<And>u b. \<bar>tz u b\<bar> \<le> 86400000"
    using assms(6) by simp
  ultimately have "\<exists>r. projectRenewal tz now c start = Some r \<and> now < r"
    using assms(3,4) by (intro projectRenewal_future)
  then show ?thesis
    by (simp add: calculateNextRenewalDate_project[OF assms(1,2)])
qed

text \<open>
  The monthly subscription of 1 February 2023 seen at noon of 1 March, where the
  correction is taken, and the weekly one across the end of daylight saving time.
\<close>

theorem calculateNextRenewalDate_future_witness:
  "cadence_of (recurringDuration (example_sub 12 ''USD'' ''monthly'' 1675209600000 None))
     = Some Monthly \<and>
   startDate (example_sub 12 ''USD'' ''monthly'' 1675209600000 None) = Some 1675209600000 \<and>
   - 8640000000000000 \<le> (1675209600000 :: int) \<and>
   (1675209600000 :: int) \<le> 1677672000000 \<and>
   (1677672000000 :: int) \<le> 300000000000000 \<and>
   (\<forall>u b. \<bar>utc u b\<bar> \<le> 86400000) \<and>
   (\<exists>r. calculateNextRenewalDate utc 1677672000000
          (example_sub 12 ''USD'' ''monthly'' 1675209600000 None) = Some r \<and>
        1677672000000 < r) \<and>
   cadence_of (recurringDuration (example_sub 12 ''USD'' ''weekly'' 1793196000000 None))
     = Some Weekly \<and>
   startDate (example_sub 12 ''USD'' ''weekly'' 1793196000000 None) = Some 1793196000000 \<and>
   - 8640000000000000 \<le> (1793196000000 :: int) \<and>
   (1793196000000 :: int) \<le> 1793354400000 \<and>
   (1793354400000 :: int) \<le> 300000000000000 \<and>
   (\<forall>u b. \<bar>eastern u b\<bar> \<le> 86400000) \<and>
   (\<exists>r. calculateNextRenewalDate eastern 1793354400000
          (example_sub 12 ''USD'' ''weekly'' 1793196000000 None) = Some r \<and>
        1793354400000 < r)"
  using calculateNextRenewalDate_future
          [where sub = "example_sub 12 ''USD'' ''monthly'' 1675209600000 None" and c = Monthly
             and start = 1675209600000 and now = 1677672000000 and tz = utc]
        calculateNextRenewalDate_future
          [where sub = "example_sub 12 ''USD'' ''weekly'' 1793196000000 None" and c = Weekly
             and start = 1793196000000 and now = 1793354400000 and tz = eastern]
        zone_bounds
  by (simp add: example_sub_def cadence_of_def)

section \<open>Renewals of the month\<close>

text \<open>
  C8, at the input where the code leaves the claim. On 3 November 2026 (UTC), a monthly
  subscription started on 30 October at 10:00 renews on 30 November at 10:00, in the
  current month and on its last day. \<^verbatim>\<open>endOfMonth\<close> is \<^verbatim>\<open>new Date(2026, 11, 0)\<close>, the
  midnight that begins 30 November, so the renewal is after it and the subscription is
  not returned.
\<close>

theorem getRenewalsThisMonth_last_day:
  "calculateNextRenewalDate utc 1793707200000
     (example_sub 12 ''USD'' ''monthly'' 1793354400000 None) = Some 1796032800000 \<and>
   newDate utc (getFullYear utc (Some 1793707200000)) (getMonth utc (Some 1793707200000))
     (Some 1) = Some 1793491200000 \<and>
   newDate utc (getFullYear utc (Some 1793707200000))
     (n_add (getMonth utc (Some 1793707200000)) (Some 1)) (Some 0) = Some 1795996800000 \<and>
   MonthFromTime 1796032800000 = MonthFromTime 1793707200000 \<and>
   YearFromTime 1796032800000 = YearFromTime 1793707200000 \<and>
   getRenewalsThisMonth utc 1793707200000
     [example_sub 12 ''USD'' ''monthly'' 1793354400000 None] = []"
proof -
  have "MonthFromTime 1796032800000 = 10" "YearFromTime 1796032800000 = 2026"
    by (simp_all add: date_eval)
  then show ?thesis
    by (simp add: renewal_oct30 startOfMonth_nov endOfMonth_nov renewals_nov fields_nov3)
qed

section \<open>The groups of a list\<close>

lemma grouped_empty:
  "grouped key subs Map.empty =
     (\<lambda>k. if k \<in> key ` set subs then Some (filter (\<lambda>s. key s = k) subs) else None)"
  by (intro ext) (simp add: grouped_def)

text \<open>
  What the two grouping functions return, for every list. When no key of the list is
  the name of a property that objects inherit from \<^verbatim>\<open>Object.prototype\<close>, it is the
  mapping whose keys are the keys of the list, each mapped to the subscriptions of that
  key in their order in the list. When some key of the list is such a name, the call
  raises a TypeError.
\<close>

lemma groupBy_result:
  "groupByCurrency subs =
     (if \<exists>s \<in> set subs. currency s \<in> set object_prototype_keys then Inl TypeError
      else Inr (\<lambda>k. if k \<in> currency ` set subs
                    then Some (filter (\<lambda>s. currency s = k) subs) else None))"
  "groupByDuration subs =
     (if \<exists>s \<in> set subs. recurringDuration s \<in> set object_prototype_keys then Inl TypeError
      else Inr (\<lambda>k. if k \<in> recurringDuration ` set subs
                    then Some (filter (\<lambda>s. recurringDuration s = k) subs) else None))"
  by (simp_all add: groupByCurrency_def groupByDuration_def reduce_groups_grouped
        reduce_groups_error grouped_empty)

text \<open>
  Two subscriptions, one in USD and one in EUR: two keys, each with an array of one
  element.
\<close>

lemma groupByCurrency_usd_eur:
  "\<exists>m. groupByCurrency
          [example_sub 12 ''USD'' ''monthly'' 0 None, example_sub 15 ''EUR'' ''yearly'' 1 None]
        = Inr m \<and>
        dom m = {''USD'', ''EUR''} \<and>
        m ''USD'' = Some [example_sub 12 ''USD'' ''monthly'' 0 None] \<and>
        m ''EUR'' = Some [example_sub 15 ''EUR'' ''yearly'' 1 None]"
proof -
  let ?subs = "[example_sub 12 ''USD'' ''monthly'' 0 None, example_sub 15 ''EUR'' ''yearly'' 1 None]"
  have "\<not> (\<exists>s \<in> set ?subs. currency s \<in> set object_prototype_keys)"
    by (simp add: example_sub_def object_prototype_keys_def)
  then have gc: "groupByCurrency ?subs =
        Inr (\<lambda>k. if k \<in> currency ` set ?subs
                 then Some (filter (\<lambda>s. currency s = k) ?subs) else None)"
    by (simp only: groupBy_result if_False)
  show ?thesis
    unfolding gc by (auto simp: example_sub_def dom_def split: if_splits)
qed

text \<open>
  C7, at the input where the code leaves the claim. A single subscription whose
  currency is the string \<^verbatim>\<open>constructor\<close>: \<^verbatim>\<open>acc["constructor"]\<close> is the function
  \<^verbatim>\<open>Object\<close> that every object inherits, which is truthy, so no array is stored under
  the key, and the call of \<^verbatim>\<open>push\<close> on it raises a TypeError. No mapping is returned,
  where the claim has the mapping of the one key \<^verbatim>\<open>constructor\<close> to the array of the
  subscription.
\<close>

theorem groupByCurrency_inherited_key:
  "currency (example_sub 12 ''constructor'' ''monthly'' 0 None) = ''constructor'' \<and>
   (Map.empty :: groups) ''constructor'' = None \<and>
   ''constructor'' \<in> set object_prototype_keys \<and>
   group_push ''constructor'' (example_sub 12 ''constructor'' ''monthly'' 0 None) Map.empty
     = Inl TypeError \<and>
   groupByCurrency [example_sub 12 ''constructor'' ''monthly'' 0 None] = Inl TypeError \<and>
   \<not> (\<exists>m. groupByCurrency [example_sub 12 ''constructor'' ''monthly'' 0 None] = Inr m)"
  by (simp add: groupByCurrency_def group_push_def example_sub_def object_prototype_keys_def)

end
